theory Spec2Isabelle
  imports Main "HOL-Library.Multiset"
begin

section \<open>Range formatter\<close>

text \<open>
  \<^verbatim>\<open>formatVersionRange\<close> of \<^verbatim>\<open>src/utils/common.js\<close>. A bound of type
  \<^verbatim>\<open>string|null\<close> is a \<^typ>\<open>string option\<close>, \<^const>\<open>None\<close> being \<^verbatim>\<open>null\<close>.
  The source tests its arguments by JavaScript truthiness: \<^verbatim>\<open>null\<close> and the empty
  string are falsy, every other string is truthy.
\<close>

definition truthy :: "string option \<Rightarrow> bool" where
  "truthy v = (case v of None \<Rightarrow> False | Some s \<Rightarrow> s \<noteq> [])"

text \<open>What a template literal \<^verbatim>\<open>${v}\<close> renders.\<close>

definition template :: "string option \<Rightarrow> string" where
  "template v = (case v of None \<Rightarrow> ''null'' | Some s \<Rightarrow> s)"

definition formatVersionRange :: "string option \<Rightarrow> string option \<Rightarrow> string option" where
  "formatVersionRange minVersion maxVersion =
     (if \<not> truthy minVersion \<and> \<not> truthy maxVersion then None
      else
        let range0 = [];
            range1 = (if truthy minVersion then range0 @ ''>='' @ template minVersion else range0);
            range2 = (if truthy maxVersion
                      then (if truthy minVersion then range1 @ '' '' else range1)
                             @ ''<='' @ template maxVersion
                      else range1)
        in Some range2)"

section \<open>Exceptions and array methods\<close>

text \<open>
  A JavaScript call either returns a value or raises. \<^verbatim>\<open>Array.prototype.every\<close> stops
  at the first element the callback rejects, and \<^verbatim>\<open>Array.prototype.filter\<close> keeps the
  elements the callback accepts; both let an exception of the callback through.
  A read \<^verbatim>\<open>xs[i]\<close> outside the array gives \<^verbatim>\<open>undefined\<close>, which the analysis does
  not tell apart from \<^verbatim>\<open>null\<close>: both are \<^const>\<open>None\<close>.
\<close>

datatype 'a outcome = Throws | Returns 'a

fun every :: "('a \<Rightarrow> bool outcome) \<Rightarrow> 'a list \<Rightarrow> bool outcome" where
  "every f [] = Returns True"
| "every f (x # xs) =
     (case f x of
        Throws \<Rightarrow> Throws
      | Returns b \<Rightarrow> if b then every f xs else Returns False)"

fun filter_js :: "('a \<Rightarrow> bool outcome) \<Rightarrow> 'a list \<Rightarrow> 'a list outcome" where
  "filter_js f [] = Returns []"
| "filter_js f (x # xs) =
     (case f x of
        Throws \<Rightarrow> Throws
      | Returns b \<Rightarrow>
          (case filter_js f xs of
             Throws \<Rightarrow> Throws
           | Returns ys \<Rightarrow> Returns (if b then x # ys else ys)))"

definition at :: "'a list \<Rightarrow> int \<Rightarrow> 'a option" where
  "at xs i = (if 0 \<le> i \<and> i < int (length xs) then Some (xs ! nat i) else None)"

text \<open>
  \<^verbatim>\<open>Array.prototype.sort(cmp)\<close> is stable, so for a comparator that is a total preorder
  on the elements its result is the one a stable insertion sort computes. An exception
  of the comparator ends the sort; an array of fewer than two elements is returned
  without a call of the comparator.
\<close>

fun insert_js :: "('a \<Rightarrow> 'a \<Rightarrow> int outcome) \<Rightarrow> 'a \<Rightarrow> 'a list \<Rightarrow> 'a list outcome" where
  "insert_js cmp x [] = Returns [x]"
| "insert_js cmp x (y # ys) =
     (case cmp x y of
        Throws \<Rightarrow> Throws
      | Returns n \<Rightarrow>
          if n \<le> 0 then Returns (x # y # ys)
          else (case insert_js cmp x ys of
                  Throws \<Rightarrow> Throws
                | Returns zs \<Rightarrow> Returns (y # zs)))"

fun sort_js :: "('a \<Rightarrow> 'a \<Rightarrow> int outcome) \<Rightarrow> 'a list \<Rightarrow> 'a list outcome" where
  "sort_js cmp [] = Returns []"
| "sort_js cmp (x # xs) =
     (case sort_js cmp xs of
        Throws \<Rightarrow> Throws
      | Returns ys \<Rightarrow> insert_js cmp x ys)"

section \<open>The semver library on plain versions\<close>

text \<open>
  Modelled from the spec: the functions \<^verbatim>\<open>valid\<close>, \<^verbatim>\<open>compare\<close> and \<^verbatim>\<open>satisfies\<close>
  of the semver package, which the sources import and which are not part of the
  repository. The spec takes them from a standard library, with standard
  semantic-versioning precedence (major, minor, patch) and with satisfaction meaning that
  the version falls within the range the constraint describes. The general results
  below take these functions as parameters; the definitions of this section are used to
  load the catalogs and to run the analysis on concrete inputs. They cover a fragment of
  the library's input language:
  \<^item> a version is \<^verbatim>\<open>MAJOR.MINOR.PATCH\<close>, optionally followed by \<^verbatim>\<open>+\<close> and build
    identifiers; the three numbers are decimal without leading zeros and at most
    \<open>2\<^sup>5\<^sup>3 - 1\<close>, the string has at most 256 characters;
  \<^item> a range is a non-empty list of comparators separated by single spaces, a comparator
    being one of \<^verbatim>\<open>>=\<close>, \<^verbatim>\<open><=\<close>, \<^verbatim>\<open>>\<close>, \<^verbatim>\<open><\<close>, \<^verbatim>\<open>=\<close> or nothing, followed by
    \<^verbatim>\<open>MAJOR.MINOR.PATCH\<close>.
  Prerelease tags, the \<^verbatim>\<open>v\<close> prefix, and the operators \<^verbatim>\<open>^\<close>, \<^verbatim>\<open>~\<close>, \<^verbatim>\<open>||\<close>,
  hyphen and wildcard ranges are outside the fragment; a string outside it is treated as
  not a version, or not a range.
\<close>

datatype SemVer = SemVer (major: nat) (minor: nat) (patch: nat) (build: "string list")

definition digitOf :: "char \<Rightarrow> nat option" where
  "digitOf =
     map_of [(CHR ''0'', 0), (CHR ''1'', 1), (CHR ''2'', 2), (CHR ''3'', 3), (CHR ''4'', 4),
             (CHR ''5'', 5), (CHR ''6'', 6), (CHR ''7'', 7), (CHR ''8'', 8), (CHR ''9'', 9)]"

fun decimal :: "nat \<Rightarrow> string \<Rightarrow> nat option" where
  "decimal acc [] = Some acc"
| "decimal acc (c # cs) =
     (case digitOf c of None \<Rightarrow> None | Some d \<Rightarrow> decimal (10 * acc + d) cs)"

definition MAX_SAFE_INTEGER :: nat where
  "MAX_SAFE_INTEGER = 9007199254740991"

definition numericIdentifier :: "string \<Rightarrow> nat option" where
  "numericIdentifier s =
     (case s of
        [] \<Rightarrow> None
      | c # cs \<Rightarrow>
          if c = CHR ''0'' \<and> cs \<noteq> [] then None
          else (case decimal 0 s of
                  None \<Rightarrow> None
                | Some n \<Rightarrow> if n \<le> MAX_SAFE_INTEGER then Some n else None))"

fun splitOn :: "char \<Rightarrow> string \<Rightarrow> string list" where
  "splitOn sep [] = [[]]"
| "splitOn sep (c # cs) =
     (if c = sep then [] # splitOn sep cs
      else (case splitOn sep cs of
              [] \<Rightarrow> [[c]]
            | w # ws \<Rightarrow> (c # w) # ws))"

definition buildChar :: "char \<Rightarrow> bool" where
  "buildChar c =
     (c \<in> set ''0123456789abcdefghijklmnopqrstuvwxyzABCDEFGHIJKLMNOPQRSTUVWXYZ-'')"

definition buildIdentifier :: "string \<Rightarrow> bool" where
  "buildIdentifier s = (s \<noteq> [] \<and> list_all buildChar s)"

definition mainVersion :: "string \<Rightarrow> string list \<Rightarrow> SemVer option" where
  "mainVersion s b =
     (case splitOn CHR ''.'' s of
        [x, y, z] \<Rightarrow>
          (case (numericIdentifier x, numericIdentifier y, numericIdentifier z) of
             (Some a, Some b', Some c) \<Rightarrow> Some (SemVer a b' c b)
           | _ \<Rightarrow> None)
      | _ \<Rightarrow> None)"

definition parse :: "string \<Rightarrow> SemVer option" where
  "parse s =
     (if length s > 256 then None
      else (case splitOn CHR ''+'' s of
              [m] \<Rightarrow> mainVersion m []
            | [m, b] \<Rightarrow>
                (let ids = splitOn CHR ''.'' b
                 in if list_all buildIdentifier ids then mainVersion m ids else None)
            | _ \<Rightarrow> None))"

definition valid :: "string \<Rightarrow> bool" where
  "valid s = (parse s \<noteq> None)"

definition compareIdentifiers :: "nat \<Rightarrow> nat \<Rightarrow> int" where
  "compareIdentifiers a b = (if a = b then 0 else if a < b then - 1 else 1)"

text \<open>The library compares major, minor and patch in turn and ignores the build.\<close>

definition compareMain :: "SemVer \<Rightarrow> SemVer \<Rightarrow> int" where
  "compareMain a b =
     (if compareIdentifiers (major a) (major b) \<noteq> 0 then compareIdentifiers (major a) (major b)
      else if compareIdentifiers (minor a) (minor b) \<noteq> 0 then compareIdentifiers (minor a) (minor b)
      else compareIdentifiers (patch a) (patch b))"

text \<open>\<^verbatim>\<open>compare\<close> raises a \<^verbatim>\<open>TypeError\<close> on a string that is not a version.\<close>

definition compare :: "string \<Rightarrow> string \<Rightarrow> int outcome" where
  "compare a b =
     (case (parse a, parse b) of
        (Some x, Some y) \<Rightarrow> Returns (compareMain x y)
      | _ \<Rightarrow> Throws)"

datatype operator = GE | LE | GT | LT | EQ

definition comparator :: "string \<Rightarrow> (operator \<times> SemVer) option" where
  "comparator s =
     (if take 2 s = ''>='' then map_option (Pair GE) (mainVersion (drop 2 s) [])
      else if take 2 s = ''<='' then map_option (Pair LE) (mainVersion (drop 2 s) [])
      else if take 1 s = ''>'' then map_option (Pair GT) (mainVersion (drop 1 s) [])
      else if take 1 s = ''<'' then map_option (Pair LT) (mainVersion (drop 1 s) [])
      else if take 1 s = ''='' then map_option (Pair EQ) (mainVersion (drop 1 s) [])
      else map_option (Pair EQ) (mainVersion s []))"

fun parseRange :: "string list \<Rightarrow> (operator \<times> SemVer) list option" where
  "parseRange [] = Some []"
| "parseRange (t # ts) =
     (case comparator t of
        None \<Rightarrow> None
      | Some c \<Rightarrow> map_option (Cons c) (parseRange ts))"

fun test :: "SemVer \<Rightarrow> operator \<times> SemVer \<Rightarrow> bool" where
  "test v (GE, c) = (compareMain v c \<ge> 0)"
| "test v (LE, c) = (compareMain v c \<le> 0)"
| "test v (GT, c) = (compareMain v c > 0)"
| "test v (LT, c) = (compareMain v c < 0)"
| "test v (EQ, c) = (compareMain v c = 0)"

text \<open>
  \<^verbatim>\<open>satisfies\<close> answers false for a string that is not a range and for a string that is
  not a version; on strings it does not raise.
\<close>

definition satisfies :: "string \<Rightarrow> string \<Rightarrow> bool outcome" where
  "satisfies version rangeStr =
     (case parseRange (splitOn CHR '' '' rangeStr) of
        None \<Rightarrow> Returns False
      | Some cs \<Rightarrow>
          (case parse version of
             None \<Rightarrow> Returns False
           | Some v \<Rightarrow> Returns (list_all (test v) cs)))"

section \<open>Reference version catalogs\<close>

text \<open>
  \<^verbatim>\<open>src/shared/constants.js\<close>, the module the analysis imports. Each catalog is sorted
  when the module is loaded, so it is the outcome of a sort.
\<close>

definition COMMON_NODEJS_VERSIONS :: "string list outcome" where
  "COMMON_NODEJS_VERSIONS =
     sort_js compare
       [''18.0.0'', ''18.12.0'', ''18.19.1'', ''18.20.3'', ''20.0.0'', ''20.5.0'',
        ''20.11.1'', ''20.15.1'', ''21.0.0'', ''21.7.3'', ''22.0.0'', ''22.4.1'']"

definition COMMON_NPM_VERSIONS :: "string list outcome" where
  "COMMON_NPM_VERSIONS =
     sort_js compare [''8.0.0'', ''8.19.4'', ''9.0.0'', ''9.9.3'', ''10.0.0'', ''10.8.1'']"

text \<open>
  The later constants module (\<^verbatim>\<open>src/unnamed/part_004\<close>) builds its runtime catalog from
  a raw list that holds release aliases: \<^verbatim>\<open>raw.filter(v => valid(v)).sort(compare)\<close>.
  \<open>constructCatalog\<close> is that expression, for any raw list and with the two library
  functions as parameters.
\<close>

definition constructCatalog ::
  "(string \<Rightarrow> bool) \<Rightarrow> (string \<Rightarrow> string \<Rightarrow> int outcome) \<Rightarrow> string list \<Rightarrow> string list outcome"
where
  "constructCatalog isValid cmp raw = sort_js cmp (filter isValid raw)"

definition NODEJS_VERSIONS_WITH_ALIASES :: "string list" where
  "NODEJS_VERSIONS_WITH_ALIASES =
     [''lts/hydrogen'', ''18.20.8'', ''lts/iron'', ''20.19.1'', ''lts/jod'', ''22.15.0'',
      ''24.0.1'']"

section \<open>Range resolver\<close>

text \<open>
  The callback of \<^verbatim>\<open>every\<close> in \<^verbatim>\<open>analyzeProjectIncludes\<close>: the call of
  \<^verbatim>\<open>satisfies\<close> sits in a \<^verbatim>\<open>try\<close> whose handler returns false. The library function
  is the parameter \<open>sat\<close>.
\<close>

definition rangeTest ::
  "(string \<Rightarrow> string \<Rightarrow> bool outcome) \<Rightarrow> string \<Rightarrow> string \<Rightarrow> bool outcome"
where
  "rangeTest sat version rangeStr =
     (case sat version rangeStr of
        Returns b \<Rightarrow> Returns b
      | Throws \<Rightarrow> Returns False)"

definition compatibleVersions ::
  "(string \<Rightarrow> string \<Rightarrow> bool outcome) \<Rightarrow> string list \<Rightarrow> string list \<Rightarrow> string list outcome"
where
  "compatibleVersions sat catalog allRanges =
     filter_js (\<lambda>version. every (\<lambda>rangeStr. rangeTest sat version rangeStr) allRanges) catalog"

text \<open>
  The runtime range (\<^verbatim>\<open>minNode\<close>, \<^verbatim>\<open>maxNode\<close>). The last argument is the list of
  dependency names; the source falls back to the whole catalog when there are
  dependencies and no runtime constraint was collected.
\<close>

definition nodeRange ::
  "(string \<Rightarrow> string \<Rightarrow> bool outcome) \<Rightarrow> string list \<Rightarrow> string list \<Rightarrow> string list
     \<Rightarrow> (string option \<times> string option) outcome"
where
  "nodeRange sat catalog allNodeRanges dependencies =
     (if length allNodeRanges > 0 then
        (case compatibleVersions sat catalog allNodeRanges of
           Throws \<Rightarrow> Throws
         | Returns compatibleNodeVersions \<Rightarrow>
             if length compatibleNodeVersions > 0
             then Returns (at compatibleNodeVersions 0,
                           at compatibleNodeVersions (int (length compatibleNodeVersions) - 1))
             else Returns (None, None))
      else if length dependencies > 0
      then Returns (at catalog 0, at catalog (int (length catalog) - 1))
      else Returns (None, None))"

text \<open>The package-manager range (\<^verbatim>\<open>minNpm\<close>, \<^verbatim>\<open>maxNpm\<close>) has no such fallback.\<close>

definition npmRange ::
  "(string \<Rightarrow> string \<Rightarrow> bool outcome) \<Rightarrow> string list \<Rightarrow> string list
     \<Rightarrow> (string option \<times> string option) outcome"
where
  "npmRange sat catalog allNpmRanges =
     (if length allNpmRanges > 0 then
        (case compatibleVersions sat catalog allNpmRanges of
           Throws \<Rightarrow> Throws
         | Returns compatibleNpmVersions \<Rightarrow>
             if length compatibleNpmVersions > 0
             then Returns (at compatibleNpmVersions 0,
                           at compatibleNpmVersions (int (length compatibleNpmVersions) - 1))
             else Returns (None, None))
      else Returns (None, None))"

section \<open>Constraint collector and orchestrator\<close>

text \<open>
  What the analysis reads from a \<^verbatim>\<open>package.json\<close>. Of the two dependency objects only
  the keys are read, so each is the list of its own keys (distinct, in the order of
  \<^verbatim>\<open>Object.keys\<close>), and \<^const>\<open>None\<close> when the field is missing or falsy. The field
  \<^verbatim>\<open>engines\<close> is \<^const>\<open>None\<close> when it is missing or falsy; otherwise its fields
  \<^verbatim>\<open>node\<close> and \<^verbatim>\<open>npm\<close> are strings, or \<^const>\<open>None\<close> when missing or \<^verbatim>\<open>null\<close>.

  A file is missing (\<^verbatim>\<open>existsSync\<close> is false), unreadable (\<^verbatim>\<open>readFileSync\<close> or
  \<^verbatim>\<open>JSON.parse\<close> raises; the string is what the message template prints for the
  error), the JSON value \<^verbatim>\<open>null\<close> (a property read on it raises), or any other JSON
  value.
\<close>

record engines_field =
  node :: "string option"
  npm :: "string option"

record package_json =
  dependencies :: "string list option"
  devDependencies :: "string list option"
  engines :: "engines_field option"

datatype manifest_file = Missing | Unreadable string | ParsedNull | Parsed package_json

text \<open>
  The surroundings of a run: \<^verbatim>\<open>path.join\<close>, the file system, and the library's
  \<^verbatim>\<open>satisfies\<close>.
\<close>

record environment =
  join :: "string list \<Rightarrow> string"
  files :: "string \<Rightarrow> manifest_file"
  semver :: "string \<Rightarrow> string \<Rightarrow> bool outcome"

text \<open>
  The effects that are recorded: every file-system call and every error shown to the
  user, in order. Console diagnostics and progress reports are left out.
\<close>

datatype event = ExistsSync string | ReadFileSync string | ShowErrorMessage string

record ProjectAnalysisResult =
  projectPackageJsonPath :: string
  minNode :: "string option"
  maxNode :: "string option"
  minNpm :: "string option"
  maxNpm :: "string option"
  noteText :: "string option"

record collected =
  allNodeRanges :: "string list"
  allNpmRanges :: "string list"
  trace :: "event list"

text \<open>\<^verbatim>\<open>if (v) xs.push(v)\<close>: the empty string is falsy.\<close>

definition pushIfTruthy :: "string option \<Rightarrow> string list \<Rightarrow> string list" where
  "pushIfTruthy v xs = (case v of None \<Rightarrow> xs | Some s \<Rightarrow> if s \<noteq> [] then xs @ [s] else xs)"

text \<open>The body of the loop over the dependency names.\<close>

definition collectDependency :: "environment \<Rightarrow> string \<Rightarrow> collected \<Rightarrow> string \<Rightarrow> collected" where
  "collectDependency env nodeModulesPath c depName =
     (let depPackageJsonPath = join env [nodeModulesPath, depName, ''package.json''];
          c1 = c\<lparr>trace := trace c @ [ExistsSync depPackageJsonPath]\<rparr>;
          c2 = c1\<lparr>trace := trace c1 @ [ReadFileSync depPackageJsonPath]\<rparr>
      in case files env depPackageJsonPath of
           Missing \<Rightarrow> c1\<lparr>allNodeRanges := allNodeRanges c1 @ [''>=0.10.0'']\<rparr>
         | Unreadable error \<Rightarrow> c2\<lparr>allNodeRanges := allNodeRanges c2 @ [''>=0.10.0'']\<rparr>
         | ParsedNull \<Rightarrow> c2\<lparr>allNodeRanges := allNodeRanges c2 @ [''>=0.10.0'']\<rparr>
         | Parsed depPackageJson \<Rightarrow>
             (case engines depPackageJson of
                None \<Rightarrow> c2\<lparr>allNodeRanges := allNodeRanges c2 @ [''>=0.10.0'']\<rparr>
              | Some e \<Rightarrow>
                  c2\<lparr>allNodeRanges := pushIfTruthy (node e) (allNodeRanges c2),
                     allNpmRanges := pushIfTruthy (npm e) (allNpmRanges c2)\<rparr>))"

fun collectDependencies :: "environment \<Rightarrow> string \<Rightarrow> collected \<Rightarrow> string list \<Rightarrow> collected" where
  "collectDependencies env nodeModulesPath c [] = c"
| "collectDependencies env nodeModulesPath c (depName # rest) =
     collectDependencies env nodeModulesPath (collectDependency env nodeModulesPath c depName) rest"

text \<open>
  The keys of \<^verbatim>\<open>{...(dependencies || {}), ...(devDependencies || {})}\<close>: a name declared
  in both objects keeps its first position. (JavaScript lists integer-like keys first;
  the order of the names fixes only the order of the trace and of the collected lists.)
\<close>

definition mergedKeys :: "string list option \<Rightarrow> string list option \<Rightarrow> string list" where
  "mergedKeys deps devDeps =
     (let a = (case deps of None \<Rightarrow> [] | Some ks \<Rightarrow> ks);
          b = (case devDeps of None \<Rightarrow> [] | Some ks \<Rightarrow> ks)
      in a @ filter (\<lambda>k. k \<notin> set a) b)"

text \<open>
  \<^verbatim>\<open>analyzeProjectIncludes\<close>. The result is \<open>Returns None\<close> for \<^verbatim>\<open>null\<close>,
  \<open>Returns (Some r)\<close> for a result record and \<^const>\<open>Throws\<close> for a rejected promise; the
  second component is the trace of effects. The two catalogs are those of the imported
  module; a raise while they are sorted would keep the module from loading.
\<close>

definition analyzeProjectIncludes ::
  "environment \<Rightarrow> string \<Rightarrow> ProjectAnalysisResult option outcome \<times> event list"
where
  "analyzeProjectIncludes env projectPath =
     (case (COMMON_NODEJS_VERSIONS, COMMON_NPM_VERSIONS) of
        (Returns nodeVersions, Returns npmVersions) \<Rightarrow>
          (let path = join env [projectPath, ''package.json''];
               t1 = [ExistsSync path];
               t2 = t1 @ [ReadFileSync path]
           in case files env path of
                Missing \<Rightarrow>
                  (Returns None,
                   t1 @ [ShowErrorMessage (''package.json not found in '' @ projectPath)])
              | Unreadable error \<Rightarrow>
                  (Returns None,
                   t2 @ [ShowErrorMessage (''Error parsing '' @ path @ '': '' @ error)])
              | ParsedNull \<Rightarrow> (Throws, t2)
              | Parsed projectPackageJson \<Rightarrow>
                  (let deps = mergedKeys (dependencies projectPackageJson)
                                         (devDependencies projectPackageJson)
                   in if length deps = 0 then
                        (Returns (Some \<lparr>projectPackageJsonPath = path,
                                        minNode = None, maxNode = None,
                                        minNpm = None, maxNpm = None,
                                        noteText = Some ''No dependencies to analyze.''\<rparr>),
                         t2)
                      else
                        (let nodeModulesPath = join env [projectPath, ''node_modules''];
                             c = collectDependencies env nodeModulesPath
                                   \<lparr>allNodeRanges = [], allNpmRanges = [], trace = t2\<rparr> deps
                         in case nodeRange (semver env) nodeVersions (allNodeRanges c) deps of
                              Throws \<Rightarrow> (Throws, trace c)
                            | Returns (minNode', maxNode') \<Rightarrow>
                                (case npmRange (semver env) npmVersions (allNpmRanges c) of
                                   Throws \<Rightarrow> (Throws, trace c)
                                 | Returns (minNpm', maxNpm') \<Rightarrow>
                                     (Returns (Some \<lparr>projectPackageJsonPath = path,
                                                     minNode = minNode', maxNode = maxNode',
                                                     minNpm = minNpm', maxNpm = maxNpm',
                                                     noteText = None\<rparr>),
                                      trace c)))))
      | _ \<Rightarrow> (Throws, []))"

section \<open>Notions used in the statements\<close>

text \<open>
  \<open>a\<close> precedes \<open>b\<close> under a comparator when the comparator returns a number that is
  not positive. A comparator is a total preorder on the valid strings when it returns
  on them and this relation is total and transitive there.
\<close>

definition precedesBy :: "(string \<Rightarrow> string \<Rightarrow> int outcome) \<Rightarrow> string \<Rightarrow> string \<Rightarrow> bool" where
  "precedesBy cmp a b = (case cmp a b of Returns n \<Rightarrow> n \<le> 0 | Throws \<Rightarrow> False)"

definition totalPreorderOn :: "(string \<Rightarrow> bool) \<Rightarrow> (string \<Rightarrow> string \<Rightarrow> int outcome) \<Rightarrow> bool" where
  "totalPreorderOn isValid cmp =
     ((\<forall>a b. isValid a \<and> isValid b \<longrightarrow> (\<exists>n. cmp a b = Returns n))
      \<and> (\<forall>a b. isValid a \<and> isValid b \<longrightarrow> precedesBy cmp a b \<or> precedesBy cmp b a)
      \<and> (\<forall>a b c. isValid a \<and> isValid b \<and> isValid c \<and> precedesBy cmp a b \<and> precedesBy cmp b c
            \<longrightarrow> precedesBy cmp a c))"

text \<open>Two strings have the same precedence when each precedes the other.\<close>

definition samePrecedence :: "(string \<Rightarrow> string \<Rightarrow> int outcome) \<Rightarrow> string \<Rightarrow> string \<Rightarrow> bool" where
  "samePrecedence cmp a b = (precedesBy cmp a b \<and> precedesBy cmp b a)"

text \<open>
  The invariant of a resolved range over a catalog: both bounds absent, or both present,
  taken from the catalog, the minimum preceding the maximum in the library's order.
\<close>

definition resolvedRangeInvariant :: "string list \<Rightarrow> string option \<times> string option \<Rightarrow> bool" where
  "resolvedRangeInvariant catalog r =
     (case r of
        (None, None) \<Rightarrow> True
      | (Some lo, Some hi) \<Rightarrow> lo \<in> set catalog \<and> hi \<in> set catalog \<and> precedesBy compare lo hi
      | _ \<Rightarrow> False)"

text \<open>
  Three kinds of dependency metadata: unavailable (missing, unreadable, or the value
  \<^verbatim>\<open>null\<close>); readable with an engines value that holds no runtime constraint; readable
  with no runtime constraint at all (an engines value without one, or no engines value).
\<close>

definition unavailable :: "manifest_file \<Rightarrow> bool" where
  "unavailable f = (case f of Parsed pj \<Rightarrow> False | _ \<Rightarrow> True)"

definition enginesWithoutRuntime :: "manifest_file \<Rightarrow> bool" where
  "enginesWithoutRuntime f =
     (case f of
        Parsed pj \<Rightarrow> (case engines pj of None \<Rightarrow> False | Some e \<Rightarrow> \<not> truthy (node e))
      | _ \<Rightarrow> False)"

definition declaresNoRuntime :: "manifest_file \<Rightarrow> bool" where
  "declaresNoRuntime f =
     (case f of
        Parsed pj \<Rightarrow> (case engines pj of None \<Rightarrow> True | Some e \<Rightarrow> \<not> truthy (node e))
      | _ \<Rightarrow> False)"

text \<open>
  The paths of a run, the two catalogs as sorted at load time, and the state of a
  collector that has recorded nothing.
\<close>

abbreviation nothingCollected :: collected where
  "nothingCollected \<equiv> \<lparr>allNodeRanges = [], allNpmRanges = [], trace = []\<rparr>"

abbreviation manifestPath :: "environment \<Rightarrow> string \<Rightarrow> string" where
  "manifestPath env projectPath \<equiv> join env [projectPath, ''package.json'']"

abbreviation dependencyPath :: "environment \<Rightarrow> string \<Rightarrow> string \<Rightarrow> string" where
  "dependencyPath env projectPath depName \<equiv>
     join env [join env [projectPath, ''node_modules''], depName, ''package.json'']"

abbreviation nodeCatalog :: "string list" where
  "nodeCatalog \<equiv>
     [''18.0.0'', ''18.12.0'', ''18.19.1'', ''18.20.3'', ''20.0.0'', ''20.5.0'',
      ''20.11.1'', ''20.15.1'', ''21.0.0'', ''21.7.3'', ''22.0.0'', ''22.4.1'']"

abbreviation npmCatalog :: "string list" where
  "npmCatalog \<equiv> [''8.0.0'', ''8.19.4'', ''9.0.0'', ''9.9.3'', ''10.0.0'', ''10.8.1'']"

section \<open>Example runs\<close>

text \<open>
  A project at \<^verbatim>\<open>/project\<close> with the one dependency slot
  \<^verbatim>\<open>/project/node_modules/dep\<close>; the two files are the parameters. On path segments
  that need no normalisation \<^verbatim>\<open>path.join\<close> puts a slash between them.
  \<open>raisingSatisfies\<close> is a \<^verbatim>\<open>satisfies\<close> that raises on a string that is not a range.
\<close>

fun slashJoin :: "string list \<Rightarrow> string" where
  "slashJoin [] = ''.''"
| "slashJoin [p] = p"
| "slashJoin (p # ps) = p @ ''/'' @ slashJoin ps"

definition exampleFiles :: "manifest_file \<Rightarrow> manifest_file \<Rightarrow> string \<Rightarrow> manifest_file" where
  "exampleFiles projectFile depFile p =
     (if p = ''/project/package.json'' then projectFile
      else if p = ''/project/node_modules/dep/package.json'' then depFile
      else Missing)"

definition exampleRun :: "manifest_file \<Rightarrow> manifest_file \<Rightarrow> environment" where
  "exampleRun projectFile depFile =
     \<lparr>join = slashJoin, files = exampleFiles projectFile depFile, semver = satisfies\<rparr>"

definition oneDependency :: manifest_file where
  "oneDependency = Parsed \<lparr>dependencies = Some [''dep''], devDependencies = None, engines = None\<rparr>"

definition noDependencies :: manifest_file where
  "noDependencies = Parsed \<lparr>dependencies = None, devDependencies = Some [], engines = None\<rparr>"

definition npmOnlyEngines :: manifest_file where
  "npmOnlyEngines =
     Parsed \<lparr>dependencies = None, devDependencies = None,
             engines = Some \<lparr>node = None, npm = Some ''>=8.0.0''\<rparr>\<rparr>"

definition malformedEngines :: manifest_file where
  "malformedEngines =
     Parsed \<lparr>dependencies = None, devDependencies = None,
             engines = Some \<lparr>node = Some ''not a range'', npm = None\<rparr>\<rparr>"

definition raisingSatisfies :: "string \<Rightarrow> string \<Rightarrow> bool outcome" where
  "raisingSatisfies version rangeStr =
     (if parseRange (splitOn CHR '' '' rangeStr) = None then Throws
      else satisfies version rangeStr)"

section \<open>Evaluation of the library fragment and of the catalogs\<close>

lemmas semver_defs =
  satisfies_def parse_def mainVersion_def numericIdentifier_def digitOf_def
  MAX_SAFE_INTEGER_def compareMain_def compareIdentifiers_def compare_def comparator_def
  buildIdentifier_def buildChar_def valid_def

section \<open>Properties of the resolver\<close>

text \<open>The guarded test never raises, so the scan of the catalog is an ordinary filter.\<close>

lemma every_rangeTest:
  "every (\<lambda>rangeStr. rangeTest sat version rangeStr) L
     = Returns (\<forall>r \<in> set L. sat version r = Returns True)"
proof (induction L)
  case Nil
  show ?case by simp
next
  case (Cons r L)
  show ?case
  proof (cases "sat version r")
    case Throws
    then show ?thesis by (simp add: rangeTest_def)
  next
    case (Returns b)
    with Cons show ?thesis by (simp add: rangeTest_def)
  qed
qed

lemma filter_js_total:
  assumes "\<And>x. f x = Returns (P x)"
  shows "filter_js f xs = Returns (filter P xs)"
  by (induction xs) (simp_all add: assms)

lemma compatibleVersions_filter:
  "compatibleVersions sat catalog L
     = Returns (filter (\<lambda>v. \<forall>r \<in> set L. sat v r = Returns True) catalog)"
  unfolding compatibleVersions_def
  by (rule filter_js_total) (rule every_rangeTest)

lemma at_first: "xs \<noteq> [] \<Longrightarrow> at xs 0 = Some (hd xs)"
  by (cases xs) (simp_all add: at_def)

lemma at_last: "xs \<noteq> [] \<Longrightarrow> at xs (int (length xs) - 1) = Some (last xs)"
proof -
  assume ne: "xs \<noteq> []"
  then have "nat (int (length xs) - 1) = length xs - 1" by simp
  moreover from ne have "0 \<le> int (length xs) - 1" by (cases xs) simp_all
  ultimately show ?thesis using ne by (simp add: at_def last_conv_nth)
qed

lemma at_empty: "at [] i = None"
  by (simp add: at_def)

lemma nodeRange_nonempty:
  "L \<noteq> [] \<Longrightarrow> nodeRange sat C L deps
      = Returns (case filter (\<lambda>v. \<forall>r \<in> set L. sat v r = Returns True) C of
                   [] \<Rightarrow> (None, None)
                 | y # ys \<Rightarrow> (Some y, Some (last (y # ys))))"
proof -
  assume ne: "L \<noteq> []"
  let ?xs = "filter (\<lambda>v. \<forall>r \<in> set L. sat v r = Returns True) C"
  show ?thesis
  proof (cases ?xs)
    case Nil
    with ne show ?thesis by (simp add: nodeRange_def compatibleVersions_filter)
  next
    case (Cons y ys)
    then have "?xs \<noteq> []" by simp
    from at_first [OF this] at_last [OF this] ne Cons show ?thesis
      by (simp add: nodeRange_def compatibleVersions_filter del: last.simps)
  qed
qed

lemma npmRange_nonempty:
  "L \<noteq> [] \<Longrightarrow> npmRange sat C L
      = Returns (case filter (\<lambda>v. \<forall>r \<in> set L. sat v r = Returns True) C of
                   [] \<Rightarrow> (None, None)
                 | y # ys \<Rightarrow> (Some y, Some (last (y # ys))))"
proof -
  assume ne: "L \<noteq> []"
  let ?xs = "filter (\<lambda>v. \<forall>r \<in> set L. sat v r = Returns True) C"
  show ?thesis
  proof (cases ?xs)
    case Nil
    with ne show ?thesis by (simp add: npmRange_def compatibleVersions_filter)
  next
    case (Cons y ys)
    then have "?xs \<noteq> []" by simp
    from at_first [OF this] at_last [OF this] ne Cons show ?thesis
      by (simp add: npmRange_def compatibleVersions_filter del: last.simps)
  qed
qed

section \<open>Supporting facts\<close>

lemma nodeVersions:
  "COMMON_NODEJS_VERSIONS =
     Returns nodeCatalog"
  by (simp add: COMMON_NODEJS_VERSIONS_def semver_defs)

lemma npmVersions:
  "COMMON_NPM_VERSIONS =
     Returns npmCatalog"
  by (simp add: COMMON_NPM_VERSIONS_def semver_defs)

lemma nodeVersions_ascending:
  "sorted_wrt (precedesBy compare) nodeCatalog"
  by (simp add: precedesBy_def semver_defs)

lemma nodeVersions_reflexive:
  "list_all (\<lambda>v. precedesBy compare v v) nodeCatalog"
  by (simp add: precedesBy_def semver_defs)

lemma npmVersions_ascending:
  "sorted_wrt (precedesBy compare) npmCatalog"
  by (simp add: precedesBy_def semver_defs)

lemma npmVersions_reflexive:
  "list_all (\<lambda>v. precedesBy compare v v) npmCatalog"
  by (simp add: precedesBy_def semver_defs)

text \<open>The first and the last element of a sublist of an ascending list.\<close>

lemma ends_invariant:
  assumes asc: "sorted_wrt le cat" and refl: "\<forall>v \<in> set cat. le v v"
    and sub: "set xs \<subseteq> set cat" and sxs: "sorted_wrt le xs" and ne: "xs \<noteq> []"
  shows "hd xs \<in> set cat \<and> last xs \<in> set cat \<and> le (hd xs) (last xs)"
proof -
  from ne sub have h: "hd xs \<in> set cat" and l: "last xs \<in> set cat"
    using hd_in_set last_in_set by blast+
  have "le (hd xs) (last xs)"
  proof (cases "length xs = 1")
    case True
    then have "last xs = hd xs" by (cases xs) simp_all
    with refl h show ?thesis by simp
  next
    case False
    with ne have lt: "0 < length xs - 1" by (cases xs) simp_all
    then have "le (xs ! 0) (xs ! (length xs - 1))"
      using sxs by (simp add: sorted_wrt_nth_less)
    with ne show ?thesis by (simp add: hd_conv_nth last_conv_nth)
  qed
  with h l show ?thesis by simp
qed

lemma nodeRange_invariant:
  assumes asc: "sorted_wrt (precedesBy compare) cat" and refl: "\<forall>v \<in> set cat. precedesBy compare v v"
    and res: "nodeRange sat cat L deps = Returns r"
  shows "resolvedRangeInvariant cat r"
proof (cases "L = []")
  case True
  show ?thesis
  proof (cases "cat = [] \<or> deps = []")
    case True
    with \<open>L = []\<close> res show ?thesis
      by (auto simp: nodeRange_def at_empty resolvedRangeInvariant_def split: if_splits)
  next
    case False
    then have ne: "cat \<noteq> []" and d: "deps \<noteq> []" by simp_all
    from ends_invariant [OF asc refl subset_refl asc ne]
    have "hd cat \<in> set cat \<and> last cat \<in> set cat \<and> precedesBy compare (hd cat) (last cat)" .
    moreover from \<open>L = []\<close> d res at_first [OF ne] at_last [OF ne]
    have "r = (Some (hd cat), Some (last cat))" by (simp add: nodeRange_def)
    ultimately show ?thesis by (simp add: resolvedRangeInvariant_def)
  qed
next
  case False
  let ?xs = "filter (\<lambda>v. \<forall>r \<in> set L. sat v r = Returns True) cat"
  from nodeRange_nonempty [OF False, of sat cat deps] res
  have r: "r = (case ?xs of [] \<Rightarrow> (None, None) | y # ys \<Rightarrow> (Some y, Some (last (y # ys))))"
    by simp
  show ?thesis
  proof (cases ?xs)
    case Nil
    with r show ?thesis by (simp add: resolvedRangeInvariant_def)
  next
    case (Cons y ys)
    then have ne: "?xs \<noteq> []" by simp
    have "sorted_wrt (precedesBy compare) ?xs" using asc by (rule sorted_wrt_filter)
    from ends_invariant [OF asc refl _ this ne]
    have "hd ?xs \<in> set cat \<and> last ?xs \<in> set cat \<and> precedesBy compare (hd ?xs) (last ?xs)" by simp
    with r Cons show ?thesis by (simp add: resolvedRangeInvariant_def del: last.simps)
  qed
qed

lemma npmRange_invariant:
  assumes asc: "sorted_wrt (precedesBy compare) cat" and refl: "\<forall>v \<in> set cat. precedesBy compare v v"
    and res: "npmRange sat cat L = Returns r"
  shows "resolvedRangeInvariant cat r"
proof (cases "L = []")
  case True
  with res show ?thesis by (auto simp: npmRange_def resolvedRangeInvariant_def)
next
  case False
  let ?xs = "filter (\<lambda>v. \<forall>r \<in> set L. sat v r = Returns True) cat"
  from npmRange_nonempty [OF False, of sat cat] res
  have r: "r = (case ?xs of [] \<Rightarrow> (None, None) | y # ys \<Rightarrow> (Some y, Some (last (y # ys))))"
    by simp
  show ?thesis
  proof (cases ?xs)
    case Nil
    with r show ?thesis by (simp add: resolvedRangeInvariant_def)
  next
    case (Cons y ys)
    then have ne: "?xs \<noteq> []" by simp
    have "sorted_wrt (precedesBy compare) ?xs" using asc by (rule sorted_wrt_filter)
    from ends_invariant [OF asc refl _ this ne]
    have "hd ?xs \<in> set cat \<and> last ?xs \<in> set cat \<and> precedesBy compare (hd ?xs) (last ?xs)" by simp
    with r Cons show ?thesis by (simp add: resolvedRangeInvariant_def del: last.simps)
  qed
qed


lemma insert_js_sorted:
  assumes tp: "totalPreorderOn isValid cmp"
  shows "isValid x \<Longrightarrow> \<forall>y \<in> set ys. isValid y \<Longrightarrow> sorted_wrt (precedesBy cmp) ys \<Longrightarrow>
           \<exists>zs. insert_js cmp x ys = Returns zs \<and> mset zs = mset (x # ys)
                \<and> sorted_wrt (precedesBy cmp) zs"
proof (induction ys)
  case Nil
  show ?case by simp
next
  case (Cons y ys)
  from Cons.prems have vx: "isValid x" and vy: "isValid y" and vys: "\<forall>z \<in> set ys. isValid z"
    by simp_all
  from tp vx vy obtain n where n: "cmp x y = Returns n"
    unfolding totalPreorderOn_def by blast
  show ?case
  proof (cases "n \<le> 0")
    case True
    then have xy: "precedesBy cmp x y" using n by (simp add: precedesBy_def)
    have "\<forall>z \<in> set ys. precedesBy cmp x z"
    proof
      fix z assume z: "z \<in> set ys"
      with Cons.prems(3) have "precedesBy cmp y z" by simp
      with tp xy vx vy vys z show "precedesBy cmp x z"
        unfolding totalPreorderOn_def by blast
    qed
    with xy Cons.prems(3) n True show ?thesis by simp
  next
    case False
    then have "\<not> precedesBy cmp x y" using n by (simp add: precedesBy_def)
    with tp vx vy have yx: "precedesBy cmp y x"
      unfolding totalPreorderOn_def by blast
    from Cons.prems(3) have s: "sorted_wrt (precedesBy cmp) ys" by simp
    from Cons.IH [OF vx vys s] obtain zs where
      zs: "insert_js cmp x ys = Returns zs" "mset zs = mset (x # ys)"
          "sorted_wrt (precedesBy cmp) zs" by blast
    from zs(2) have "set zs = set (x # ys)" by (metis mset_eq_setD)
    with yx Cons.prems(3) have "\<forall>z \<in> set zs. precedesBy cmp y z" by simp
    with zs n False show ?thesis by simp
  qed
qed

lemma sort_js_sorted:
  assumes tp: "totalPreorderOn isValid cmp"
  shows "\<forall>x \<in> set xs. isValid x \<Longrightarrow>
           \<exists>ys. sort_js cmp xs = Returns ys \<and> mset ys = mset xs
                \<and> sorted_wrt (precedesBy cmp) ys"
proof (induction xs)
  case Nil
  show ?case by simp
next
  case (Cons x xs)
  then obtain ys where ys: "sort_js cmp xs = Returns ys" "mset ys = mset xs"
      "sorted_wrt (precedesBy cmp) ys" by auto
  from ys(2) have "set ys = set xs" by (metis mset_eq_setD)
  with Cons.prems have "isValid x" "\<forall>y \<in> set ys. isValid y" by simp_all
  from insert_js_sorted [OF tp this ys(3)] ys show ?case by auto
qed

lemma sorted_wrt_unique:
  "sorted_wrt le xs \<Longrightarrow> sorted_wrt le ys \<Longrightarrow> mset xs = mset ys \<Longrightarrow>
   (\<forall>a \<in> set xs. \<forall>b \<in> set xs. le a b \<and> le b a \<longrightarrow> a = b) \<Longrightarrow> xs = ys"
proof (induction xs arbitrary: ys)
  case Nil
  then show ?case by simp
next
  case (Cons x xs)
  from Cons.prems(3) obtain y ys' where ys: "ys = y # ys'"
    by (cases ys) auto
  from Cons.prems(3) have sets: "set (x # xs) = set ys" by (metis mset_eq_setD)
  have "x = y"
  proof (rule ccontr)
    assume neq: "x \<noteq> y"
    from sets ys have "x \<in> set ys'" using neq by auto
    with Cons.prems(2) ys have yx: "le y x" by simp
    from sets ys have "y \<in> set xs" using neq by auto
    with Cons.prems(1) have xy: "le x y" by simp
    from sets ys have "y \<in> set (x # xs)" by auto
    with Cons.prems(4) xy yx have "x = y" by auto
    with neq show False by simp
  qed
  with Cons.prems(3) ys have m: "mset xs = mset ys'" by simp
  from Cons.prems(1) have s1: "sorted_wrt le xs" by simp
  from Cons.prems(2) ys have s2: "sorted_wrt le ys'" by simp
  from Cons.prems(4) have a: "\<forall>a \<in> set xs. \<forall>b \<in> set xs. le a b \<and> le b a \<longrightarrow> a = b" by simp
  from Cons.IH [OF s1 s2 m a] \<open>x = y\<close> ys show ?case by simp
qed

lemma constructCatalog_sorted:
  assumes tp: "totalPreorderOn isValid cmp"
  shows "\<exists>catalog. constructCatalog isValid cmp raw = Returns catalog
           \<and> mset catalog = mset (filter isValid raw)
           \<and> sorted_wrt (precedesBy cmp) catalog"
  unfolding constructCatalog_def
  by (rule sort_js_sorted [OF tp]) simp

lemma constructCatalog_permutation:
  assumes tp: "totalPreorderOn isValid cmp" and perm: "mset raw' = mset raw"
    and inj: "\<forall>a \<in> set raw. \<forall>b \<in> set raw.
                isValid a \<and> isValid b \<and> precedesBy cmp a b \<and> precedesBy cmp b a \<longrightarrow> a = b"
  shows "constructCatalog isValid cmp raw' = constructCatalog isValid cmp raw"
proof -
  from constructCatalog_sorted [OF tp, of raw] obtain c where
    c: "constructCatalog isValid cmp raw = Returns c" "mset c = mset (filter isValid raw)"
       "sorted_wrt (precedesBy cmp) c" by blast
  from constructCatalog_sorted [OF tp, of raw'] obtain c' where
    c': "constructCatalog isValid cmp raw' = Returns c'" "mset c' = mset (filter isValid raw')"
       "sorted_wrt (precedesBy cmp) c'" by blast
  from perm have "mset (filter isValid raw') = mset (filter isValid raw)" by simp
  with c(2) c'(2) have m: "mset c = mset c'" by simp
  from c(2) have "set c = set (filter isValid raw)" by (metis mset_eq_setD)
  with inj have "\<forall>a \<in> set c. \<forall>b \<in> set c. precedesBy cmp a b \<and> precedesBy cmp b a \<longrightarrow> a = b"
    by auto
  from sorted_wrt_unique [OF c(3) c'(3) m this] c(1) c'(1) show ?thesis by simp
qed

text \<open>The sort is stable: within one precedence the input order is kept.\<close>

lemma insert_js_stable:
  assumes tp: "totalPreorderOn isValid cmp" and v: "isValid v"
  shows "isValid x \<Longrightarrow> \<forall>y \<in> set ys. isValid y \<Longrightarrow> insert_js cmp x ys = Returns zs \<Longrightarrow>
           filter (samePrecedence cmp v) zs = filter (samePrecedence cmp v) (x # ys)"
proof (induction ys arbitrary: zs)
  case Nil
  then show ?case by auto
next
  case (Cons y ys)
  from Cons.prems have vx: "isValid x" and vy: "isValid y" and vys: "\<forall>z \<in> set ys. isValid z"
    by simp_all
  from tp vx vy obtain n where n: "cmp x y = Returns n"
    unfolding totalPreorderOn_def by blast
  show ?case
  proof (cases "n \<le> 0")
    case True
    with n Cons.prems(3) show ?thesis by auto
  next
    case False
    with n Cons.prems(3) obtain zs' where
      zs': "insert_js cmp x ys = Returns zs'" and zs: "zs = y # zs'"
      by (auto split: outcome.splits)
    from Cons.IH [OF vx vys zs']
    have ih: "filter (samePrecedence cmp v) zs' = filter (samePrecedence cmp v) (x # ys)" .
    have "\<not> (samePrecedence cmp v x \<and> samePrecedence cmp v y)"
    proof
      assume b: "samePrecedence cmp v x \<and> samePrecedence cmp v y"
      then have "precedesBy cmp x v" "precedesBy cmp v y" by (simp_all add: samePrecedence_def)
      with tp vx vy v have "precedesBy cmp x y" unfolding totalPreorderOn_def by blast
      with n False show False by (simp add: precedesBy_def)
    qed
    with ih zs show ?thesis by auto
  qed
qed

lemma sort_js_stable:
  assumes tp: "totalPreorderOn isValid cmp" and v: "isValid v"
  shows "\<forall>x \<in> set xs. isValid x \<Longrightarrow> sort_js cmp xs = Returns ys \<Longrightarrow>
           filter (samePrecedence cmp v) ys = filter (samePrecedence cmp v) xs"
proof (induction xs arbitrary: ys)
  case Nil
  then show ?case by simp
next
  case (Cons x xs)
  from Cons.prems(1) have vx: "isValid x" and vxs: "\<forall>z \<in> set xs. isValid z" by simp_all
  from sort_js_sorted [OF tp vxs] obtain ys' where
    ys': "sort_js cmp xs = Returns ys'" "mset ys' = mset xs" by (elim exE conjE)
  from ys'(2) have "set ys' = set xs" by (metis mset_eq_setD)
  with vxs have vys': "\<forall>z \<in> set ys'. isValid z" by simp
  from Cons.prems(2) ys'(1) have ins: "insert_js cmp x ys' = Returns ys" by simp
  from insert_js_stable [OF tp v vx vys' ins] Cons.IH [OF vxs ys'(1)]
  show ?case by simp
qed

lemma constructCatalog_stable:
  assumes tp: "totalPreorderOn isValid cmp" and v: "isValid v"
    and c: "constructCatalog isValid cmp raw = Returns catalog"
  shows "filter (samePrecedence cmp v) catalog
           = filter (samePrecedence cmp v) (filter isValid raw)"
proof -
  have "\<forall>x \<in> set (filter isValid raw). isValid x" by simp
  from sort_js_stable [OF tp v this] c show ?thesis by (simp add: constructCatalog_def)
qed

text \<open>The comparison of the fragment is a total preorder on its versions.\<close>

lemma compareMain_total: "compareMain x y \<le> 0 \<or> compareMain y x \<le> 0"
  by (simp add: compareMain_def compareIdentifiers_def)

lemma compareMain_trans: "compareMain x y \<le> 0 \<Longrightarrow> compareMain y z \<le> 0 \<Longrightarrow> compareMain x z \<le> 0"
  by (simp add: compareMain_def compareIdentifiers_def split: if_splits)

lemma compare_totalPreorder: "totalPreorderOn valid compare"
  unfolding totalPreorderOn_def
proof (intro conjI allI impI)
  fix a b assume "valid a \<and> valid b"
  then show "\<exists>n. compare a b = Returns n" by (auto simp: valid_def compare_def)
next
  fix a b assume "valid a \<and> valid b"
  then obtain x y where "parse a = Some x" "parse b = Some y" by (auto simp: valid_def)
  then show "precedesBy compare a b \<or> precedesBy compare b a"
    using compareMain_total [of x y] by (simp add: precedesBy_def compare_def)
next
  fix a b c assume h: "valid a \<and> valid b \<and> valid c \<and> precedesBy compare a b \<and> precedesBy compare b c"
  then obtain x y z where p: "parse a = Some x" "parse b = Some y" "parse c = Some z"
    by (auto simp: valid_def)
  with h have "compareMain x y \<le> 0" "compareMain y z \<le> 0"
    by (simp_all add: precedesBy_def compare_def)
  from compareMain_trans [OF this] p show "precedesBy compare a c"
    by (simp add: precedesBy_def compare_def)
qed

lemma pushIfTruthy_empty: "pushIfTruthy v xs = [] \<longleftrightarrow> xs = [] \<and> \<not> truthy v"
  by (simp add: pushIfTruthy_def truthy_def split: option.splits)

lemma pushIfTruthy_falsy: "\<not> truthy v \<Longrightarrow> pushIfTruthy v xs = xs"
  by (simp add: pushIfTruthy_def truthy_def split: option.splits)

lemma collectDependency_unavailable:
  "unavailable (files env (join env [nodeModulesPath, depName, ''package.json''])) \<Longrightarrow>
     allNodeRanges (collectDependency env nodeModulesPath c depName) = allNodeRanges c @ [''>=0.10.0'']
     \<and> allNpmRanges (collectDependency env nodeModulesPath c depName) = allNpmRanges c"
  by (simp add: collectDependency_def unavailable_def Let_def split: manifest_file.splits)

lemma collectDependency_node_empty:
  "allNodeRanges (collectDependency env nodeModulesPath c depName) = [] \<longleftrightarrow>
     allNodeRanges c = []
     \<and> enginesWithoutRuntime (files env (join env [nodeModulesPath, depName, ''package.json'']))"
  by (simp add: collectDependency_def enginesWithoutRuntime_def Let_def pushIfTruthy_empty
           split: manifest_file.splits option.splits)

lemma collectDependencies_node_empty:
  "allNodeRanges (collectDependencies env nodeModulesPath c deps) = [] \<longleftrightarrow>
     allNodeRanges c = []
     \<and> (\<forall>d \<in> set deps.
           enginesWithoutRuntime (files env (join env [nodeModulesPath, d, ''package.json''])))"
  by (induction deps arbitrary: c) (auto simp: collectDependency_node_empty)

text \<open>The collector only appends, one dependency after the other.\<close>

lemma collectDependency_additive:
  "allNodeRanges (collectDependency env nodeModulesPath c d)
     = allNodeRanges c @ allNodeRanges (collectDependency env nodeModulesPath nothingCollected d)
   \<and> allNpmRanges (collectDependency env nodeModulesPath c d)
     = allNpmRanges c @ allNpmRanges (collectDependency env nodeModulesPath nothingCollected d)"
  by (simp add: collectDependency_def pushIfTruthy_def Let_def
        split: manifest_file.splits option.splits)

lemma collectDependencies_additive:
  "allNodeRanges (collectDependencies env nodeModulesPath c ds)
     = allNodeRanges c @ allNodeRanges (collectDependencies env nodeModulesPath nothingCollected ds)
   \<and> allNpmRanges (collectDependencies env nodeModulesPath c ds)
     = allNpmRanges c @ allNpmRanges (collectDependencies env nodeModulesPath nothingCollected ds)"
proof (induction ds arbitrary: c)
  case Nil
  show ?case by simp
next
  case (Cons d ds)
  from Cons.IH [of "collectDependency env nodeModulesPath c d"]
       Cons.IH [of "collectDependency env nodeModulesPath nothingCollected d"]
       collectDependency_additive [of env nodeModulesPath c d]
  show ?case by simp
qed

lemma collectDependencies_append:
  "collectDependencies env nodeModulesPath c (xs @ ys)
     = collectDependencies env nodeModulesPath (collectDependencies env nodeModulesPath c xs) ys"
  by (induction xs arbitrary: c) simp_all

lemma collectDependencies_unavailable:
  assumes u: "unavailable (files env (join env [nodeModulesPath, depName, ''package.json'']))"
  shows "allNodeRanges (collectDependencies env nodeModulesPath c (before @ depName # after))
           = allNodeRanges (collectDependencies env nodeModulesPath c before) @ [''>=0.10.0'']
               @ allNodeRanges (collectDependencies env nodeModulesPath nothingCollected after)"
    and "allNpmRanges (collectDependencies env nodeModulesPath c (before @ depName # after))
           = allNpmRanges (collectDependencies env nodeModulesPath c before)
               @ allNpmRanges (collectDependencies env nodeModulesPath nothingCollected after)"
proof -
  let ?b = "collectDependencies env nodeModulesPath c before"
  let ?s = "collectDependency env nodeModulesPath ?b depName"
  have e: "collectDependencies env nodeModulesPath c (before @ depName # after)
             = collectDependencies env nodeModulesPath ?s after"
    by (simp add: collectDependencies_append)
  from collectDependency_unavailable [OF u, of ?b]
  have s: "allNodeRanges ?s = allNodeRanges ?b @ [''>=0.10.0'']" "allNpmRanges ?s = allNpmRanges ?b"
    by simp_all
  from collectDependencies_additive [of env nodeModulesPath ?s after] e s
  show "allNodeRanges (collectDependencies env nodeModulesPath c (before @ depName # after))
           = allNodeRanges (collectDependencies env nodeModulesPath c before) @ [''>=0.10.0'']
               @ allNodeRanges (collectDependencies env nodeModulesPath nothingCollected after)"
    and "allNpmRanges (collectDependencies env nodeModulesPath c (before @ depName # after))
           = allNpmRanges (collectDependencies env nodeModulesPath c before)
               @ allNpmRanges (collectDependencies env nodeModulesPath nothingCollected after)"
    by simp_all
qed


lemma nodeRange_total: "\<exists>r. nodeRange sat cat L deps = Returns r"
  by (simp add: nodeRange_def compatibleVersions_filter)

lemma npmRange_total: "\<exists>r. npmRange sat cat L = Returns r"
  by (simp add: npmRange_def compatibleVersions_filter)

lemma npmRange_empty: "npmRange sat cat [] = Returns (None, None)"
  by (simp add: npmRange_def)

lemma nodeRange_empty:
  "deps \<noteq> [] \<Longrightarrow> nodeRange sat cat [] deps
     = Returns (case cat of [] \<Rightarrow> (None, None) | y # ys \<Rightarrow> (Some y, Some (last (y # ys))))"
proof (cases cat)
  case Nil
  assume "deps \<noteq> []"
  with Nil show ?thesis by (simp add: nodeRange_def at_empty)
next
  case (Cons y ys)
  assume d: "deps \<noteq> []"
  from Cons have "cat \<noteq> []" by simp
  from at_first [OF this] at_last [OF this] d Cons show ?thesis
    by (simp add: nodeRange_def del: last.simps)
qed

lemma analyze_Missing:
  "files env (manifestPath env projectPath) = Missing \<Longrightarrow>
     analyzeProjectIncludes env projectPath
       = (Returns None,
          [ExistsSync (manifestPath env projectPath),
           ShowErrorMessage (''package.json not found in '' @ projectPath)])"
  by (simp add: analyzeProjectIncludes_def nodeVersions npmVersions Let_def)

lemma analyze_Unreadable:
  "files env (manifestPath env projectPath) = Unreadable e \<Longrightarrow>
     analyzeProjectIncludes env projectPath
       = (Returns None,
          [ExistsSync (manifestPath env projectPath),
           ReadFileSync (manifestPath env projectPath),
           ShowErrorMessage
             (''Error parsing '' @ manifestPath env projectPath @ '': '' @ e)])"
  by (simp add: analyzeProjectIncludes_def nodeVersions npmVersions Let_def)

lemma analyze_no_dependencies:
  "files env (manifestPath env projectPath) = Parsed pj \<Longrightarrow>
   mergedKeys (dependencies pj) (devDependencies pj) = [] \<Longrightarrow>
     analyzeProjectIncludes env projectPath
       = (Returns (Some \<lparr>projectPackageJsonPath = manifestPath env projectPath,
                         minNode = None, maxNode = None, minNpm = None, maxNpm = None,
                         noteText = Some ''No dependencies to analyze.''\<rparr>),
          [ExistsSync (manifestPath env projectPath),
           ReadFileSync (manifestPath env projectPath)])"
  by (simp add: analyzeProjectIncludes_def nodeVersions npmVersions Let_def)

lemma analyze_dependencies:
  assumes "files env (manifestPath env projectPath) = Parsed pj"
    and "mergedKeys (dependencies pj) (devDependencies pj) = deps" and "deps \<noteq> []"
    and "collectDependencies env (join env [projectPath, ''node_modules''])
           \<lparr>allNodeRanges = [], allNpmRanges = [],
            trace = [ExistsSync (manifestPath env projectPath),
                     ReadFileSync (manifestPath env projectPath)]\<rparr> deps = c"
    and "nodeRange (semver env) nodeCatalog
           (allNodeRanges c) deps = Returns (lo, hi)"
    and "npmRange (semver env) npmCatalog
           (allNpmRanges c) = Returns (lo', hi')"
  shows "analyzeProjectIncludes env projectPath
       = (Returns (Some \<lparr>projectPackageJsonPath = manifestPath env projectPath,
                         minNode = lo, maxNode = hi, minNpm = lo', maxNpm = hi',
                         noteText = None\<rparr>),
          trace c)"
  using assms by (simp add: analyzeProjectIncludes_def nodeVersions npmVersions Let_def)

lemma analyze_shape:
  assumes "files env (manifestPath env projectPath) = Parsed pj"
    and "mergedKeys (dependencies pj) (devDependencies pj) = deps" and "deps \<noteq> []"
    and "collectDependencies env (join env [projectPath, ''node_modules''])
           \<lparr>allNodeRanges = [], allNpmRanges = [],
            trace = [ExistsSync (manifestPath env projectPath),
                     ReadFileSync (manifestPath env projectPath)]\<rparr> deps = c"
  obtains lo hi lo' hi' where
    "nodeRange (semver env) nodeCatalog
           (allNodeRanges c) deps = Returns (lo, hi)"
    "npmRange (semver env) npmCatalog
           (allNpmRanges c) = Returns (lo', hi')"
    "analyzeProjectIncludes env projectPath
       = (Returns (Some \<lparr>projectPackageJsonPath = manifestPath env projectPath,
                         minNode = lo, maxNode = hi, minNpm = lo', maxNpm = hi',
                         noteText = None\<rparr>),
          trace c)"
proof -
  obtain lo hi where n: "nodeRange (semver env) nodeCatalog
           (allNodeRanges c) deps = Returns (lo, hi)"
    using nodeRange_total by (metis surj_pair)
  obtain lo' hi' where m: "npmRange (semver env) npmCatalog
           (allNpmRanges c) = Returns (lo', hi')"
    using npmRange_total by (metis surj_pair)
  from analyze_dependencies [OF assms n m] n m that show thesis by blast
qed

lemma analyze_not_aborted:
  "files env (manifestPath env projectPath) \<noteq> ParsedNull \<Longrightarrow>
     fst (analyzeProjectIncludes env projectPath) \<noteq> Throws"
proof -
  assume a: "files env (manifestPath env projectPath) \<noteq> ParsedNull"
  let ?f = "files env (manifestPath env projectPath)"
  show ?thesis
  proof (cases ?f)
    case Missing
    then show ?thesis by (simp add: analyze_Missing)
  next
    case (Unreadable e)
    then show ?thesis by (simp add: analyze_Unreadable)
  next
    case ParsedNull
    with a show ?thesis by simp
  next
    case (Parsed pj)
    show ?thesis
    proof (cases "mergedKeys (dependencies pj) (devDependencies pj) = []")
      case True
      with Parsed show ?thesis by (simp add: analyze_no_dependencies)
    next
      case False
      from analyze_shape [OF Parsed refl False refl] show ?thesis by (metis fst_conv outcome.distinct(1))
    qed
  qed
qed

lemma analyze_invariant:
  assumes "fst (analyzeProjectIncludes env projectPath) = Returns (Some r)"
  shows "resolvedRangeInvariant
           nodeCatalog
           (minNode r, maxNode r)
       \<and> resolvedRangeInvariant
           npmCatalog
           (minNpm r, maxNpm r)"
proof (cases "files env (manifestPath env projectPath)")
  case Missing
  with assms show ?thesis by (simp add: analyze_Missing)
next
  case (Unreadable e)
  with assms show ?thesis by (simp add: analyze_Unreadable)
next
  case ParsedNull
  with assms show ?thesis by (simp add: analyzeProjectIncludes_def nodeVersions npmVersions Let_def)
next
  case (Parsed pj)
  show ?thesis
  proof (cases "mergedKeys (dependencies pj) (devDependencies pj) = []")
    case True
    from analyze_no_dependencies [OF Parsed True] assms
    show ?thesis by (auto simp: resolvedRangeInvariant_def)
  next
    case False
    from analyze_shape [OF Parsed refl False refl]
    obtain lo hi lo' hi' where
      n: "nodeRange (semver env) nodeCatalog
           (allNodeRanges (collectDependencies env (join env [projectPath, ''node_modules''])
           \<lparr>allNodeRanges = [], allNpmRanges = [],
            trace = [ExistsSync (manifestPath env projectPath),
                     ReadFileSync (manifestPath env projectPath)]\<rparr>
              (mergedKeys (dependencies pj) (devDependencies pj))))
            (mergedKeys (dependencies pj) (devDependencies pj)) = Returns (lo, hi)"
      and m: "npmRange (semver env) npmCatalog
           (allNpmRanges (collectDependencies env (join env [projectPath, ''node_modules''])
           \<lparr>allNodeRanges = [], allNpmRanges = [],
            trace = [ExistsSync (manifestPath env projectPath),
                     ReadFileSync (manifestPath env projectPath)]\<rparr>
              (mergedKeys (dependencies pj) (devDependencies pj)))) = Returns (lo', hi')"
      and r: "fst (analyzeProjectIncludes env projectPath)
       = Returns (Some \<lparr>projectPackageJsonPath = manifestPath env projectPath,
                         minNode = lo, maxNode = hi, minNpm = lo', maxNpm = hi',
                         noteText = None\<rparr>)"
      by (metis fst_conv)
    have refl1: "\<forall>v \<in> set nodeCatalog. precedesBy compare v v"
      using nodeVersions_reflexive unfolding list_all_iff .
    have refl2: "\<forall>v \<in> set npmCatalog. precedesBy compare v v"
      using npmVersions_reflexive unfolding list_all_iff .
    from nodeRange_invariant [OF nodeVersions_ascending refl1 n]
         npmRange_invariant [OF npmVersions_ascending refl2 m] r assms
    show ?thesis by auto
  qed
qed

section \<open>Example runs, evaluated\<close>

lemmas run_defs =
  exampleRun_def exampleFiles_def oneDependency_def noDependencies_def npmOnlyEngines_def
  malformedEngines_def raisingSatisfies_def

lemma run_npmOnlyEngines:
  "analyzeProjectIncludes (exampleRun oneDependency npmOnlyEngines) ''/project''
     = (Returns (Some \<lparr>projectPackageJsonPath = ''/project/package.json'',
                       minNode = Some ''18.0.0'', maxNode = Some ''22.4.1'',
                       minNpm = Some ''8.0.0'', maxNpm = Some ''10.8.1'', noteText = None\<rparr>),
        [ExistsSync ''/project/package.json'', ReadFileSync ''/project/package.json'',
         ExistsSync ''/project/node_modules/dep/package.json'',
         ReadFileSync ''/project/node_modules/dep/package.json''])"
  by (simp add: analyzeProjectIncludes_def nodeVersions npmVersions Let_def run_defs
        collectDependency_def pushIfTruthy_def mergedKeys_def nodeRange_def npmRange_def
        compatibleVersions_def rangeTest_def at_def semver_defs)

lemma collect_npmOnlyEngines:
  "allNodeRanges (collectDependencies (exampleRun oneDependency npmOnlyEngines)
       ''/project/node_modules''
       \<lparr>allNodeRanges = [], allNpmRanges = [],
        trace = [ExistsSync ''/project/package.json'', ReadFileSync ''/project/package.json'']\<rparr>
       [''dep'']) = []"
  by (simp add: run_defs collectDependency_def pushIfTruthy_def Let_def)

lemma example_nodeRange:
  "nodeRange satisfies [''18.0.0'', ''19.0.0'', ''19.5.0'', ''20.0.0'']
        [''>=18.0.0 <20.0.0''] deps = Returns (Some ''18.0.0'', Some ''19.5.0'')"
  by (simp add: nodeRange_def compatibleVersions_def rangeTest_def at_def semver_defs)

lemma example_npmRange:
  "npmRange satisfies [''18.0.0'', ''19.0.0'', ''19.5.0'', ''20.0.0'']
        [''>=18.0.0 <20.0.0''] = Returns (Some ''18.0.0'', Some ''19.5.0'')"
  by (simp add: npmRange_def compatibleVersions_def rangeTest_def at_def semver_defs)

lemma example_catalog_ascending:
  "sorted_wrt (precedesBy compare) [''18.0.0'', ''19.0.0'', ''19.5.0'', ''20.0.0'']
   \<and> list_all valid [''18.0.0'', ''19.0.0'', ''19.5.0'', ''20.0.0'']"
  by (simp add: precedesBy_def semver_defs)

lemma default_permissive:
  "list_all (\<lambda>v. satisfies v ''>=0.10.0'' = Returns True) nodeCatalog"
  by (simp add: semver_defs)

lemma raising_example:
  "raisingSatisfies ''18.0.0'' ''not a range'' = Throws"
  by (simp add: raisingSatisfies_def comparator_def mainVersion_def)

lemma raising_filter:
  "filter (\<lambda>v. \<forall>r \<in> set [''>=18.0.0'', ''not a range'']. raisingSatisfies v r = Returns True)
      [''18.0.0'', ''20.0.0''] = []"
  by (simp add: raisingSatisfies_def comparator_def mainVersion_def)

lemma run_malformedEngines:
  "fst (analyzeProjectIncludes (exampleRun oneDependency malformedEngines\<lparr>semver := raisingSatisfies\<rparr>)
          ''/project'')
     = Returns (Some \<lparr>projectPackageJsonPath = ''/project/package.json'',
                      minNode = None, maxNode = None, minNpm = None, maxNpm = None,
                      noteText = None\<rparr>)"
  by (simp add: analyzeProjectIncludes_def nodeVersions npmVersions Let_def run_defs
        collectDependency_def pushIfTruthy_def mergedKeys_def nodeRange_def npmRange_def
        compatibleVersions_def rangeTest_def at_def comparator_def mainVersion_def)

lemma collect_missing_a:
  "allNodeRanges (collectDependencies (exampleRun oneDependency Missing) ''/project/node_modules''
      nothingCollected [''a'']) = [''>=0.10.0'']
   \<and> allNpmRanges (collectDependencies (exampleRun oneDependency Missing) ''/project/node_modules''
      nothingCollected [''a'']) = []"
  by (simp add: run_defs collectDependency_def Let_def)

lemma collect_missing_b:
  "allNodeRanges (collectDependencies (exampleRun oneDependency Missing) ''/project/node_modules''
      nothingCollected [''b'']) = [''>=0.10.0'']
   \<and> allNpmRanges (collectDependencies (exampleRun oneDependency Missing) ''/project/node_modules''
      nothingCollected [''b'']) = []"
  by (simp add: run_defs collectDependency_def Let_def)

lemma aliases_distinct:
  "\<forall>a \<in> set NODEJS_VERSIONS_WITH_ALIASES. \<forall>b \<in> set NODEJS_VERSIONS_WITH_ALIASES.
      valid a \<and> valid b \<and> samePrecedence compare a b \<longrightarrow> a = b"
  by (simp add: NODEJS_VERSIONS_WITH_ALIASES_def samePrecedence_def precedesBy_def semver_defs)

lemma aliases_catalog:
  "constructCatalog valid compare NODEJS_VERSIONS_WITH_ALIASES
     = Returns [''18.20.8'', ''20.19.1'', ''22.15.0'', ''24.0.1'']"
  by (simp add: constructCatalog_def NODEJS_VERSIONS_WITH_ALIASES_def semver_defs)

lemma build_catalog:
  "constructCatalog valid compare [''lts/iron'', ''1.0.0+b'', ''0.9.0'', ''1.0.0+a'']
     = Returns [''0.9.0'', ''1.0.0+b'', ''1.0.0+a'']"
  by (simp add: constructCatalog_def semver_defs)

lemma build_class:
  "valid ''1.0.0+a''
   \<and> filter (samePrecedence compare ''1.0.0+a'')
        (filter valid [''lts/iron'', ''1.0.0+b'', ''0.9.0'', ''1.0.0+a''])
       = [''1.0.0+b'', ''1.0.0+a'']"
  by (simp add: samePrecedence_def precedesBy_def semver_defs)

section \<open>A single dependency\<close>

lemma nodeRange_permissive:
  assumes "list_all (\<lambda>v. sat v ''>=0.10.0'' = Returns True) cat"
  shows "nodeRange sat cat [''>=0.10.0''] deps
           = Returns (case cat of [] \<Rightarrow> (None, None) | y # ys \<Rightarrow> (Some y, Some (last (y # ys))))"
proof -
  from assms have "filter (\<lambda>v. \<forall>r \<in> set [''>=0.10.0'']. sat v r = Returns True) cat = cat"
    by (simp add: list_all_iff)
  with nodeRange_nonempty [of "[''>=0.10.0'']" sat cat deps] show ?thesis by simp
qed

lemma single_unavailable_run:
  assumes m: "files env (manifestPath env projectPath) = Parsed pj"
    and k: "mergedKeys (dependencies pj) (devDependencies pj) = [depName]"
    and u: "unavailable (files env (dependencyPath env projectPath depName))"
    and p: "list_all (\<lambda>v. semver env v ''>=0.10.0'' = Returns True) nodeCatalog"
  shows "allNodeRanges (collectDependencies env (join env [projectPath, ''node_modules''])
            \<lparr>allNodeRanges = [], allNpmRanges = [],
             trace = [ExistsSync (manifestPath env projectPath),
                      ReadFileSync (manifestPath env projectPath)]\<rparr> [depName])
           = [''>=0.10.0'']"
    and "allNpmRanges (collectDependencies env (join env [projectPath, ''node_modules''])
            \<lparr>allNodeRanges = [], allNpmRanges = [],
             trace = [ExistsSync (manifestPath env projectPath),
                      ReadFileSync (manifestPath env projectPath)]\<rparr> [depName])
           = []"
    and "fst (analyzeProjectIncludes env projectPath)
           = Returns (Some \<lparr>projectPackageJsonPath = manifestPath env projectPath,
                            minNode = Some ''18.0.0'', maxNode = Some ''22.4.1'',
                            minNpm = None, maxNpm = None, noteText = None\<rparr>)"
proof -
  let ?init = "\<lparr>allNodeRanges = [], allNpmRanges = [],
              trace = [ExistsSync (manifestPath env projectPath),
                       ReadFileSync (manifestPath env projectPath)]\<rparr>"
  let ?col = "collectDependencies env (join env [projectPath, ''node_modules'']) ?init [depName]"
  from collectDependency_unavailable [OF u, of ?init]
  show c: "allNodeRanges ?col = [''>=0.10.0'']" "allNpmRanges ?col = []" by simp_all
  have ne: "[depName] \<noteq> []" by simp
  obtain lo hi lo' hi' where
    n: "nodeRange (semver env) nodeCatalog (allNodeRanges ?col) [depName] = Returns (lo, hi)"
    and q: "npmRange (semver env) npmCatalog (allNpmRanges ?col) = Returns (lo', hi')"
    and r: "analyzeProjectIncludes env projectPath
       = (Returns (Some \<lparr>projectPackageJsonPath = manifestPath env projectPath,
                         minNode = lo, maxNode = hi, minNpm = lo', maxNpm = hi',
                         noteText = None\<rparr>), trace ?col)"
    by (rule analyze_shape [OF m k ne refl])
  from n c(1) nodeRange_permissive [where sat = "semver env" and cat = nodeCatalog and deps = "[depName]", OF p]
  have "lo = Some ''18.0.0''" "hi = Some ''22.4.1''" by simp_all
  moreover from q c(2) have "lo' = None" "hi' = None" by (simp_all add: npmRange_empty)
  ultimately show "fst (analyzeProjectIncludes env projectPath)
           = Returns (Some \<lparr>projectPackageJsonPath = manifestPath env projectPath,
                            minNode = Some ''18.0.0'', maxNode = Some ''22.4.1'',
                            minNpm = None, maxNpm = None, noteText = None\<rparr>)"
    using r by simp
qed

lemma single_no_runtime:
  assumes m: "files env (manifestPath env projectPath) = Parsed pj"
    and k: "mergedKeys (dependencies pj) (devDependencies pj) = [depName]"
    and u: "declaresNoRuntime (files env (dependencyPath env projectPath depName))"
    and p: "list_all (\<lambda>v. semver env v ''>=0.10.0'' = Returns True) nodeCatalog"
  shows "\<exists>r. fst (analyzeProjectIncludes env projectPath) = Returns (Some r)
           \<and> minNode r = Some ''18.0.0'' \<and> maxNode r = Some ''22.4.1''"
proof -
  let ?init = "\<lparr>allNodeRanges = [], allNpmRanges = [],
              trace = [ExistsSync (manifestPath env projectPath),
                       ReadFileSync (manifestPath env projectPath)]\<rparr>"
  let ?col = "collectDependencies env (join env [projectPath, ''node_modules'']) ?init [depName]"
  from u have c: "allNodeRanges ?col = [''>=0.10.0''] \<or> allNodeRanges ?col = []"
    by (auto simp: declaresNoRuntime_def collectDependency_def Let_def pushIfTruthy_falsy
             split: manifest_file.splits option.splits)
  have ne: "[depName] \<noteq> []" by simp
  obtain lo hi lo' hi' where
    n: "nodeRange (semver env) nodeCatalog (allNodeRanges ?col) [depName] = Returns (lo, hi)"
    and q: "npmRange (semver env) npmCatalog (allNpmRanges ?col) = Returns (lo', hi')"
    and r: "analyzeProjectIncludes env projectPath
       = (Returns (Some \<lparr>projectPackageJsonPath = manifestPath env projectPath,
                         minNode = lo, maxNode = hi, minNpm = lo', maxNpm = hi',
                         noteText = None\<rparr>), trace ?col)"
    by (rule analyze_shape [OF m k ne refl])
  from c have "lo = Some ''18.0.0'' \<and> hi = Some ''22.4.1''"
  proof
    assume "allNodeRanges ?col = [''>=0.10.0'']"
    with n nodeRange_permissive [where sat = "semver env" and cat = nodeCatalog and deps = "[depName]", OF p] show ?thesis by simp
  next
    assume "allNodeRanges ?col = []"
    with n nodeRange_empty [OF ne, of "semver env" nodeCatalog] show ?thesis by simp
  qed
  with r show ?thesis by simp
qed

section \<open>The resolver on a non-empty constraint list\<close>

text \<open>
  C1. For a non-empty constraint list \<open>L\<close> and any catalog \<open>C\<close>, each of the two
  resolvers returns the first and the last element of the sublist of \<open>C\<close>, in catalog
  order, of the versions that satisfy every constraint of \<open>L\<close>, and two absent bounds
  when that sublist is empty. On the catalog 18.0.0, 19.0.0, 19.5.0, 20.0.0 with the
  single constraint \<^verbatim>\<open>>=18.0.0 <20.0.0\<close> the result is 18.0.0 and 19.5.0.
\<close>

theorem resolver_ends_of_compatible_sublist:
  "(L \<noteq> [] \<longrightarrow>
      nodeRange sat C L deps
        = Returns (case filter (\<lambda>v. \<forall>r \<in> set L. sat v r = Returns True) C of
                     [] \<Rightarrow> (None, None)
                   | y # ys \<Rightarrow> (Some y, Some (last (y # ys))))
      \<and> npmRange sat C L
        = Returns (case filter (\<lambda>v. \<forall>r \<in> set L. sat v r = Returns True) C of
                     [] \<Rightarrow> (None, None)
                   | y # ys \<Rightarrow> (Some y, Some (last (y # ys)))))
   \<and> nodeRange satisfies [''18.0.0'', ''19.0.0'', ''19.5.0'', ''20.0.0'']
        [''>=18.0.0 <20.0.0''] deps = Returns (Some ''18.0.0'', Some ''19.5.0'')
   \<and> npmRange satisfies [''18.0.0'', ''19.0.0'', ''19.5.0'', ''20.0.0'']
        [''>=18.0.0 <20.0.0''] = Returns (Some ''18.0.0'', Some ''19.5.0'')"
proof (intro conjI impI)
  assume "L \<noteq> []"
  then show "nodeRange sat C L deps
        = Returns (case filter (\<lambda>v. \<forall>r \<in> set L. sat v r = Returns True) C of
                     [] \<Rightarrow> (None, None)
                   | y # ys \<Rightarrow> (Some y, Some (last (y # ys))))"
    by (rule nodeRange_nonempty)
next
  assume "L \<noteq> []"
  then show "npmRange sat C L
        = Returns (case filter (\<lambda>v. \<forall>r \<in> set L. sat v r = Returns True) C of
                     [] \<Rightarrow> (None, None)
                   | y # ys \<Rightarrow> (Some y, Some (last (y # ys))))"
    by (rule npmRange_nonempty)
next
  show "nodeRange satisfies [''18.0.0'', ''19.0.0'', ''19.5.0'', ''20.0.0'']
        [''>=18.0.0 <20.0.0''] deps = Returns (Some ''18.0.0'', Some ''19.5.0'')"
    by (rule example_nodeRange)
next
  show "npmRange satisfies [''18.0.0'', ''19.0.0'', ''19.5.0'', ''20.0.0'']
        [''>=18.0.0 <20.0.0''] = Returns (Some ''18.0.0'', Some ''19.5.0'')"
    by (rule example_npmRange)
qed

theorem resolver_ends_of_compatible_sublist_witness:
  "[''>=9.0.0'', ''<10.8.1''] \<noteq> []
   \<and> nodeRange satisfies npmCatalog
        [''>=9.0.0'', ''<10.8.1''] [''left-pad''] = Returns (Some ''9.0.0'', Some ''10.0.0'')
   \<and> npmRange satisfies npmCatalog
        [''>=9.0.0'', ''<10.8.1''] = Returns (Some ''9.0.0'', Some ''10.0.0'')"
  using resolver_ends_of_compatible_sublist
          [of "[''>=9.0.0'', ''<10.8.1'']" satisfies
              "npmCatalog"
              "[''left-pad'']"]
  by (simp add: semver_defs)

section \<open>The resolver on an empty constraint list\<close>

text \<open>
  C2, as amended. When there are dependencies and the collected list of a kind is empty,
  the package-manager resolver returns two absent bounds, and the runtime resolver
  returns the first and the last version of its catalog (two absent bounds only for an
  empty catalog). The runtime list is empty exactly when it was empty before and every
  dependency has readable metadata whose engines value holds no runtime constraint; a
  dependency with missing or unreadable metadata, or without an engines value, records a
  runtime constraint.
\<close>

theorem empty_constraint_list:
  "npmRange sat cat [] = Returns (None, None)
   \<and> (deps \<noteq> [] \<longrightarrow>
        nodeRange sat cat [] deps
          = Returns (case cat of [] \<Rightarrow> (None, None) | y # ys \<Rightarrow> (Some y, Some (last (y # ys)))))
   \<and> (allNodeRanges (collectDependencies env nodeModulesPath c deps) = [] \<longleftrightarrow>
        allNodeRanges c = []
        \<and> (\<forall>d \<in> set deps.
              enginesWithoutRuntime (files env (join env [nodeModulesPath, d, ''package.json'']))))"
  using npmRange_empty [of sat cat] nodeRange_empty [of deps sat cat]
        collectDependencies_node_empty [of env nodeModulesPath c deps]
  by blast

theorem empty_constraint_list_witness:
  "npmRange satisfies npmCatalog [] = Returns (None, None)
   \<and> [''dep''] \<noteq> []
   \<and> nodeRange satisfies nodeCatalog [] [''dep''] = Returns (Some ''18.0.0'', Some ''22.4.1'')
   \<and> enginesWithoutRuntime npmOnlyEngines
   \<and> allNodeRanges (collectDependencies (exampleRun oneDependency npmOnlyEngines)
        ''/project/node_modules'' \<lparr>allNodeRanges = [], allNpmRanges = [], trace = []\<rparr>
        [''dep'']) = []
   \<and> \<not> enginesWithoutRuntime Missing
   \<and> allNodeRanges (collectDependencies (exampleRun oneDependency Missing)
        ''/project/node_modules'' \<lparr>allNodeRanges = [], allNpmRanges = [], trace = []\<rparr>
        [''dep'']) \<noteq> []"
  using empty_constraint_list [where sat = satisfies and cat = npmCatalog and deps = "[''dep'']"
          and env = "exampleRun oneDependency npmOnlyEngines"
          and nodeModulesPath = "''/project/node_modules''"
          and c = "\<lparr>allNodeRanges = [], allNpmRanges = [], trace = []\<rparr>"]
        empty_constraint_list [where sat = satisfies and cat = nodeCatalog and deps = "[''dep'']"
          and env = "exampleRun oneDependency Missing"
          and nodeModulesPath = "''/project/node_modules''"
          and c = "\<lparr>allNodeRanges = [], allNpmRanges = [], trace = []\<rparr>"]
  by (simp add: run_defs enginesWithoutRuntime_def truthy_def)

text \<open>
  C2 as stated fails: a project whose only dependency declares a package-manager
  constraint and no runtime constraint has dependencies and an empty runtime list, and
  its runtime range is the whole catalog, not two absent bounds.
\<close>

theorem runtime_fallback_counterexample:
  "allNodeRanges (collectDependencies (exampleRun oneDependency npmOnlyEngines)
       ''/project/node_modules''
       \<lparr>allNodeRanges = [], allNpmRanges = [],
        trace = [ExistsSync ''/project/package.json'', ReadFileSync ''/project/package.json'']\<rparr>
       [''dep'']) = []
   \<and> fst (analyzeProjectIncludes (exampleRun oneDependency npmOnlyEngines) ''/project'')
       = Returns (Some \<lparr>projectPackageJsonPath = ''/project/package.json'',
                        minNode = Some ''18.0.0'', maxNode = Some ''22.4.1'',
                        minNpm = Some ''8.0.0'', maxNpm = Some ''10.8.1'', noteText = None\<rparr>)"
  using run_npmOnlyEngines collect_npmOnlyEngines
  by simp

section \<open>Unavailable dependency metadata\<close>

text \<open>
  C3. A dependency whose metadata is missing or unreadable adds exactly the default
  constraint \<^verbatim>\<open>>=0.10.0\<close> to the runtime list and nothing to the package-manager list:
  in one pass of the loop body, and in the loop over any dependency list, where the two
  lists are those collected before it, then the default for the runtime kind only, then
  what the later dependencies contribute. Hence, the default being satisfied by every
  version of the runtime catalog, a project with exactly one dependency, whose metadata
  is unavailable, collects the default alone and nothing for the package manager, and
  its result has the runtime range 18.0.0 to 22.4.1 and an absent package-manager range;
  the runtime range is the same when the metadata is readable and declares no runtime
  constraint.
\<close>

theorem unavailable_metadata_defaults_runtime_only:
  "(unavailable (files env (join env [nodeModulesPath, depName, ''package.json''])) \<longrightarrow>
      allNodeRanges (collectDependency env nodeModulesPath c depName)
        = allNodeRanges c @ [''>=0.10.0'']
      \<and> allNpmRanges (collectDependency env nodeModulesPath c depName) = allNpmRanges c
      \<and> allNodeRanges (collectDependencies env nodeModulesPath c (before @ depName # after))
        = allNodeRanges (collectDependencies env nodeModulesPath c before) @ [''>=0.10.0'']
            @ allNodeRanges (collectDependencies env nodeModulesPath nothingCollected after)
      \<and> allNpmRanges (collectDependencies env nodeModulesPath c (before @ depName # after))
        = allNpmRanges (collectDependencies env nodeModulesPath c before)
            @ allNpmRanges (collectDependencies env nodeModulesPath nothingCollected after))
   \<and> (join env' = join env \<and> semver env' = semver env
       \<and> files env (manifestPath env projectPath) = Parsed pj
       \<and> files env' (manifestPath env projectPath) = Parsed pj
       \<and> mergedKeys (dependencies pj) (devDependencies pj) = [depName]
       \<and> unavailable (files env (dependencyPath env projectPath depName))
       \<and> declaresNoRuntime (files env' (dependencyPath env projectPath depName))
       \<and> list_all (\<lambda>v. semver env v ''>=0.10.0'' = Returns True) nodeCatalog
       \<longrightarrow>
         allNodeRanges (collectDependencies env (join env [projectPath, ''node_modules''])
            \<lparr>allNodeRanges = [], allNpmRanges = [],
             trace = [ExistsSync (manifestPath env projectPath),
                      ReadFileSync (manifestPath env projectPath)]\<rparr> [depName])
           = [''>=0.10.0'']
         \<and> allNpmRanges (collectDependencies env (join env [projectPath, ''node_modules''])
            \<lparr>allNodeRanges = [], allNpmRanges = [],
             trace = [ExistsSync (manifestPath env projectPath),
                      ReadFileSync (manifestPath env projectPath)]\<rparr> [depName])
           = []
         \<and> fst (analyzeProjectIncludes env projectPath)
             = Returns (Some \<lparr>projectPackageJsonPath = manifestPath env projectPath,
                              minNode = Some ''18.0.0'', maxNode = Some ''22.4.1'',
                              minNpm = None, maxNpm = None, noteText = None\<rparr>)
         \<and> (\<exists>r'. fst (analyzeProjectIncludes env' projectPath) = Returns (Some r')
                \<and> minNode r' = Some ''18.0.0'' \<and> maxNode r' = Some ''22.4.1''))"
proof (intro conjI impI)
  assume u: "unavailable (files env (join env [nodeModulesPath, depName, ''package.json'']))"
  from collectDependency_unavailable [OF u]
  show "allNodeRanges (collectDependency env nodeModulesPath c depName)
        = allNodeRanges c @ [''>=0.10.0'']"
    and "allNpmRanges (collectDependency env nodeModulesPath c depName) = allNpmRanges c"
    by simp_all
  from collectDependencies_unavailable [OF u]
  show "allNodeRanges (collectDependencies env nodeModulesPath c (before @ depName # after))
        = allNodeRanges (collectDependencies env nodeModulesPath c before) @ [''>=0.10.0'']
            @ allNodeRanges (collectDependencies env nodeModulesPath nothingCollected after)"
    and "allNpmRanges (collectDependencies env nodeModulesPath c (before @ depName # after))
        = allNpmRanges (collectDependencies env nodeModulesPath c before)
            @ allNpmRanges (collectDependencies env nodeModulesPath nothingCollected after)"
    by simp_all
next
  assume h: "join env' = join env \<and> semver env' = semver env
       \<and> files env (manifestPath env projectPath) = Parsed pj
       \<and> files env' (manifestPath env projectPath) = Parsed pj
       \<and> mergedKeys (dependencies pj) (devDependencies pj) = [depName]
       \<and> unavailable (files env (dependencyPath env projectPath depName))
       \<and> declaresNoRuntime (files env' (dependencyPath env projectPath depName))
       \<and> list_all (\<lambda>v. semver env v ''>=0.10.0'' = Returns True) nodeCatalog"
  then have j: "join env' = join env" and s: "semver env' = semver env" by simp_all
  from h have a: "files env (manifestPath env projectPath) = Parsed pj"
    "mergedKeys (dependencies pj) (devDependencies pj) = [depName]"
    "unavailable (files env (dependencyPath env projectPath depName))"
    "list_all (\<lambda>v. semver env v ''>=0.10.0'' = Returns True) nodeCatalog" by simp_all
  from single_unavailable_run [OF a]
  show "allNodeRanges (collectDependencies env (join env [projectPath, ''node_modules''])
            \<lparr>allNodeRanges = [], allNpmRanges = [],
             trace = [ExistsSync (manifestPath env projectPath),
                      ReadFileSync (manifestPath env projectPath)]\<rparr> [depName])
           = [''>=0.10.0'']"
    and "allNpmRanges (collectDependencies env (join env [projectPath, ''node_modules''])
            \<lparr>allNodeRanges = [], allNpmRanges = [],
             trace = [ExistsSync (manifestPath env projectPath),
                      ReadFileSync (manifestPath env projectPath)]\<rparr> [depName])
           = []"
    and "fst (analyzeProjectIncludes env projectPath)
             = Returns (Some \<lparr>projectPackageJsonPath = manifestPath env projectPath,
                              minNode = Some ''18.0.0'', maxNode = Some ''22.4.1'',
                              minNpm = None, maxNpm = None, noteText = None\<rparr>)"
    by simp_all
  from h j s have "files env' (manifestPath env' projectPath) = Parsed pj"
    "mergedKeys (dependencies pj) (devDependencies pj) = [depName]"
    "declaresNoRuntime (files env' (dependencyPath env' projectPath depName))"
    "list_all (\<lambda>v. semver env' v ''>=0.10.0'' = Returns True) nodeCatalog" by simp_all
  from single_no_runtime [OF this]
  show "\<exists>r'. fst (analyzeProjectIncludes env' projectPath) = Returns (Some r')
                \<and> minNode r' = Some ''18.0.0'' \<and> maxNode r' = Some ''22.4.1''" .
qed

theorem unavailable_metadata_defaults_runtime_only_witness:
  "unavailable Missing
   \<and> allNodeRanges (collectDependency (exampleRun oneDependency Missing)
        ''/project/node_modules'' nothingCollected ''dep'') = [''>=0.10.0'']
   \<and> allNpmRanges (collectDependency (exampleRun oneDependency Missing)
        ''/project/node_modules'' nothingCollected ''dep'') = []
   \<and> allNodeRanges (collectDependencies (exampleRun oneDependency Missing)
        ''/project/node_modules'' nothingCollected [''a'', ''dep'', ''b''])
       = [''>=0.10.0'', ''>=0.10.0'', ''>=0.10.0'']
   \<and> allNpmRanges (collectDependencies (exampleRun oneDependency Missing)
        ''/project/node_modules'' nothingCollected [''a'', ''dep'', ''b'']) = []
   \<and> declaresNoRuntime npmOnlyEngines
   \<and> list_all (\<lambda>v. satisfies v ''>=0.10.0'' = Returns True) nodeCatalog
   \<and> fst (analyzeProjectIncludes (exampleRun oneDependency Missing) ''/project'')
       = Returns (Some \<lparr>projectPackageJsonPath = ''/project/package.json'',
                        minNode = Some ''18.0.0'', maxNode = Some ''22.4.1'',
                        minNpm = None, maxNpm = None, noteText = None\<rparr>)
   \<and> (\<exists>r'. fst (analyzeProjectIncludes (exampleRun oneDependency npmOnlyEngines) ''/project'')
                 = Returns (Some r')
             \<and> minNode r' = Some ''18.0.0'' \<and> maxNode r' = Some ''22.4.1'')"
  using unavailable_metadata_defaults_runtime_only
          [where env = "exampleRun oneDependency Missing"
             and env' = "exampleRun oneDependency npmOnlyEngines"
             and nodeModulesPath = "''/project/node_modules''" and depName = "''dep''"
             and c = nothingCollected and before = "[''a'']" and after = "[''b'']"
             and projectPath = "''/project''"
             and pj = "\<lparr>dependencies = Some [''dep''], devDependencies = None, engines = None\<rparr>"]
        default_permissive collect_missing_a collect_missing_b
  by (simp add: run_defs unavailable_def declaresNoRuntime_def truthy_def mergedKeys_def)

section \<open>Malformed constraints\<close>

text \<open>
  C4. When the library raises on a constraint, or answers false, the guarded test of the
  resolver returns false and does not raise. The scan then goes on: the compatible
  versions are exactly the catalog versions for which the library answers true on every
  constraint, both resolvers return a range, and the analysis is rejected only when the
  project manifest is the value \<^verbatim>\<open>null\<close>, never because of a constraint.
\<close>

theorem malformed_constraint_never_aborts:
  "(sat version rangeStr = Throws \<or> sat version rangeStr = Returns False
      \<longrightarrow> rangeTest sat version rangeStr = Returns False)
   \<and> compatibleVersions sat catalog L
       = Returns (filter (\<lambda>v. \<forall>r \<in> set L. sat v r = Returns True) catalog)
   \<and> (\<exists>bounds. nodeRange sat catalog L deps = Returns bounds)
   \<and> (\<exists>bounds. npmRange sat catalog L = Returns bounds)
   \<and> (files env (manifestPath env projectPath) \<noteq> ParsedNull
        \<longrightarrow> fst (analyzeProjectIncludes env projectPath) \<noteq> Throws)"
proof (intro conjI impI)
  assume "sat version rangeStr = Throws \<or> sat version rangeStr = Returns False"
  then show "rangeTest sat version rangeStr = Returns False"
    by (auto simp: rangeTest_def)
next
  show "compatibleVersions sat catalog L
       = Returns (filter (\<lambda>v. \<forall>r \<in> set L. sat v r = Returns True) catalog)"
    by (rule compatibleVersions_filter)
next
  show "\<exists>bounds. nodeRange sat catalog L deps = Returns bounds" by (rule nodeRange_total)
next
  show "\<exists>bounds. npmRange sat catalog L = Returns bounds" by (rule npmRange_total)
next
  assume "files env (manifestPath env projectPath) \<noteq> ParsedNull"
  then show "fst (analyzeProjectIncludes env projectPath) \<noteq> Throws"
    by (rule analyze_not_aborted)
qed

theorem malformed_constraint_never_aborts_witness:
  "raisingSatisfies ''18.0.0'' ''not a range'' = Throws
   \<and> rangeTest raisingSatisfies ''18.0.0'' ''not a range'' = Returns False
   \<and> compatibleVersions raisingSatisfies [''18.0.0'', ''20.0.0'']
        [''>=18.0.0'', ''not a range''] = Returns []
   \<and> files (exampleRun oneDependency malformedEngines\<lparr>semver := raisingSatisfies\<rparr>)
        (manifestPath (exampleRun oneDependency malformedEngines\<lparr>semver := raisingSatisfies\<rparr>) ''/project'')
       \<noteq> ParsedNull
   \<and> fst (analyzeProjectIncludes (exampleRun oneDependency malformedEngines\<lparr>semver := raisingSatisfies\<rparr>)
            ''/project'') \<noteq> Throws
   \<and> fst (analyzeProjectIncludes (exampleRun oneDependency malformedEngines\<lparr>semver := raisingSatisfies\<rparr>)
            ''/project'')
       = Returns (Some \<lparr>projectPackageJsonPath = ''/project/package.json'',
                        minNode = None, maxNode = None, minNpm = None, maxNpm = None,
                        noteText = None\<rparr>)"
  using malformed_constraint_never_aborts
          [where sat = raisingSatisfies and version = "''18.0.0''" and rangeStr = "''not a range''"
             and catalog = "[''18.0.0'', ''20.0.0'']" and L = "[''>=18.0.0'', ''not a range'']"
             and env = "exampleRun oneDependency malformedEngines\<lparr>semver := raisingSatisfies\<rparr>"
             and projectPath = "''/project''"]
        raising_example raising_filter run_malformedEngines
  by (simp add: run_defs)

section \<open>The invariant of resolved ranges\<close>

text \<open>
  C6. The two catalogs load as ascending lists. Every result record of the analysis has,
  for each kind, either two absent bounds or two present bounds that are entries of the
  catalog of that kind, the minimum preceding the maximum in the library's order. The
  same holds for both resolvers over any ascending catalog of valid versions.
\<close>

theorem resolved_range_invariant:
  "COMMON_NODEJS_VERSIONS = Returns nodeCatalog
   \<and> COMMON_NPM_VERSIONS = Returns npmCatalog
   \<and> (fst (analyzeProjectIncludes env projectPath) = Returns (Some r) \<longrightarrow>
        resolvedRangeInvariant nodeCatalog (minNode r, maxNode r)
        \<and> resolvedRangeInvariant npmCatalog (minNpm r, maxNpm r))
   \<and> (sorted_wrt (precedesBy compare) catalog \<and> list_all valid catalog \<longrightarrow>
        (nodeRange sat catalog L deps = Returns bounds \<longrightarrow> resolvedRangeInvariant catalog bounds)
        \<and> (npmRange sat catalog L = Returns bounds' \<longrightarrow> resolvedRangeInvariant catalog bounds'))"
proof (intro conjI impI)
  show "COMMON_NODEJS_VERSIONS = Returns nodeCatalog" by (rule nodeVersions)
  show "COMMON_NPM_VERSIONS = Returns npmCatalog" by (rule npmVersions)
next
  assume a: "fst (analyzeProjectIncludes env projectPath) = Returns (Some r)"
  from analyze_invariant [OF a]
  show "resolvedRangeInvariant nodeCatalog (minNode r, maxNode r)"
    and "resolvedRangeInvariant npmCatalog (minNpm r, maxNpm r)" by simp_all
next
  assume c: "sorted_wrt (precedesBy compare) catalog \<and> list_all valid catalog"
    and n: "nodeRange sat catalog L deps = Returns bounds"
  have "\<forall>v \<in> set catalog. precedesBy compare v v"
  proof
    fix v assume "v \<in> set catalog"
    with c have "valid v" by (simp add: list_all_iff)
    then show "precedesBy compare v v"
      by (auto simp: valid_def precedesBy_def compare_def compareMain_def compareIdentifiers_def)
  qed
  with c n show "resolvedRangeInvariant catalog bounds"
    using nodeRange_invariant by blast
next
  assume c: "sorted_wrt (precedesBy compare) catalog \<and> list_all valid catalog"
    and n: "npmRange sat catalog L = Returns bounds'"
  have "\<forall>v \<in> set catalog. precedesBy compare v v"
  proof
    fix v assume "v \<in> set catalog"
    with c have "valid v" by (simp add: list_all_iff)
    then show "precedesBy compare v v"
      by (auto simp: valid_def precedesBy_def compare_def compareMain_def compareIdentifiers_def)
  qed
  with c n show "resolvedRangeInvariant catalog bounds'"
    using npmRange_invariant by blast
qed

theorem resolved_range_invariant_witness:
  "fst (analyzeProjectIncludes (exampleRun oneDependency npmOnlyEngines) ''/project'')
     = Returns (Some \<lparr>projectPackageJsonPath = ''/project/package.json'',
                      minNode = Some ''18.0.0'', maxNode = Some ''22.4.1'',
                      minNpm = Some ''8.0.0'', maxNpm = Some ''10.8.1'', noteText = None\<rparr>)
   \<and> resolvedRangeInvariant nodeCatalog (Some ''18.0.0'', Some ''22.4.1'')
   \<and> resolvedRangeInvariant npmCatalog (Some ''8.0.0'', Some ''10.8.1'')
   \<and> sorted_wrt (precedesBy compare) [''18.0.0'', ''19.0.0'', ''19.5.0'', ''20.0.0'']
   \<and> list_all valid [''18.0.0'', ''19.0.0'', ''19.5.0'', ''20.0.0'']
   \<and> nodeRange satisfies [''18.0.0'', ''19.0.0'', ''19.5.0'', ''20.0.0'']
        [''>=18.0.0 <20.0.0''] [''dep''] = Returns (Some ''18.0.0'', Some ''19.5.0'')
   \<and> resolvedRangeInvariant [''18.0.0'', ''19.0.0'', ''19.5.0'', ''20.0.0'']
        (Some ''18.0.0'', Some ''19.5.0'')"
  using resolved_range_invariant
          [where env = "exampleRun oneDependency npmOnlyEngines" and projectPath = "''/project''"
             and r = "\<lparr>projectPackageJsonPath = ''/project/package.json'',
                      minNode = Some ''18.0.0'', maxNode = Some ''22.4.1'',
                      minNpm = Some ''8.0.0'', maxNpm = Some ''10.8.1'', noteText = None\<rparr>"
             and catalog = "[''18.0.0'', ''19.0.0'', ''19.5.0'', ''20.0.0'']"
             and sat = satisfies and L = "[''>=18.0.0 <20.0.0'']" and deps = "[''dep'']"
             and bounds = "(Some ''18.0.0'', Some ''19.5.0'')"
             and bounds' = "(Some ''18.0.0'', Some ''19.5.0'')"]
        run_npmOnlyEngines example_nodeRange [of "[''dep'']"] example_npmRange
        example_catalog_ascending
  by simp

section \<open>Catalog construction\<close>

text \<open>
  C7, as amended. For library functions that form a total preorder on the valid strings,
  construction from any raw list returns a catalog that holds exactly the valid entries
  of the list, with their multiplicities, sorted ascending by precedence, the entries of
  one precedence in their input order; and for any permutation of the raw list the
  catalog is the same, provided no two different valid entries of the list have equal
  precedence.
\<close>

theorem constructCatalog_filters_and_sorts:
  "totalPreorderOn isValid cmp \<and> mset raw' = mset raw \<longrightarrow>
     (\<exists>catalog. constructCatalog isValid cmp raw = Returns catalog
        \<and> mset catalog = mset (filter isValid raw)
        \<and> sorted_wrt (precedesBy cmp) catalog
        \<and> (\<forall>v. isValid v \<longrightarrow>
              filter (samePrecedence cmp v) catalog
                = filter (samePrecedence cmp v) (filter isValid raw))
        \<and> ((\<forall>a \<in> set raw. \<forall>b \<in> set raw.
               isValid a \<and> isValid b \<and> samePrecedence cmp a b \<longrightarrow> a = b)
             \<longrightarrow> constructCatalog isValid cmp raw' = Returns catalog))"
proof
  assume h: "totalPreorderOn isValid cmp \<and> mset raw' = mset raw"
  then have tp: "totalPreorderOn isValid cmp" and perm: "mset raw' = mset raw" by simp_all
  from constructCatalog_sorted [OF tp, of raw] obtain catalog where
    c: "constructCatalog isValid cmp raw = Returns catalog"
       "mset catalog = mset (filter isValid raw)"
       "sorted_wrt (precedesBy cmp) catalog" by (elim exE conjE)
  have st: "\<forall>v. isValid v \<longrightarrow>
              filter (samePrecedence cmp v) catalog
                = filter (samePrecedence cmp v) (filter isValid raw)"
    using constructCatalog_stable [OF tp _ c(1)] by blast
  have pm: "(\<forall>a \<in> set raw. \<forall>b \<in> set raw.
               isValid a \<and> isValid b \<and> samePrecedence cmp a b \<longrightarrow> a = b)
             \<longrightarrow> constructCatalog isValid cmp raw' = Returns catalog"
  proof
    assume "\<forall>a \<in> set raw. \<forall>b \<in> set raw.
               isValid a \<and> isValid b \<and> samePrecedence cmp a b \<longrightarrow> a = b"
    then have "\<forall>a \<in> set raw. \<forall>b \<in> set raw.
               isValid a \<and> isValid b \<and> precedesBy cmp a b \<and> precedesBy cmp b a \<longrightarrow> a = b"
      by (simp add: samePrecedence_def)
    from constructCatalog_permutation [OF tp perm this] c(1)
    show "constructCatalog isValid cmp raw' = Returns catalog" by simp
  qed
  show "\<exists>catalog. constructCatalog isValid cmp raw = Returns catalog
        \<and> mset catalog = mset (filter isValid raw)
        \<and> sorted_wrt (precedesBy cmp) catalog
        \<and> (\<forall>v. isValid v \<longrightarrow>
              filter (samePrecedence cmp v) catalog
                = filter (samePrecedence cmp v) (filter isValid raw))
        \<and> ((\<forall>a \<in> set raw. \<forall>b \<in> set raw.
               isValid a \<and> isValid b \<and> samePrecedence cmp a b \<longrightarrow> a = b)
             \<longrightarrow> constructCatalog isValid cmp raw' = Returns catalog)"
    using c st pm by (intro exI [of _ catalog] conjI)
qed

theorem constructCatalog_filters_and_sorts_witness:
  "totalPreorderOn valid compare
   \<and> mset (rev NODEJS_VERSIONS_WITH_ALIASES) = mset NODEJS_VERSIONS_WITH_ALIASES
   \<and> constructCatalog valid compare NODEJS_VERSIONS_WITH_ALIASES
       = Returns [''18.20.8'', ''20.19.1'', ''22.15.0'', ''24.0.1'']
   \<and> constructCatalog valid compare (rev NODEJS_VERSIONS_WITH_ALIASES)
       = Returns [''18.20.8'', ''20.19.1'', ''22.15.0'', ''24.0.1'']
   \<and> valid ''1.0.0+a''
   \<and> constructCatalog valid compare [''lts/iron'', ''1.0.0+b'', ''0.9.0'', ''1.0.0+a'']
       = Returns [''0.9.0'', ''1.0.0+b'', ''1.0.0+a'']
   \<and> filter (samePrecedence compare ''1.0.0+a'') [''0.9.0'', ''1.0.0+b'', ''1.0.0+a'']
       = [''1.0.0+b'', ''1.0.0+a'']"
  using constructCatalog_filters_and_sorts
          [where isValid = valid and cmp = compare and raw = NODEJS_VERSIONS_WITH_ALIASES
             and raw' = "rev NODEJS_VERSIONS_WITH_ALIASES"]
        constructCatalog_filters_and_sorts
          [where isValid = valid and cmp = compare
             and raw = "[''lts/iron'', ''1.0.0+b'', ''0.9.0'', ''1.0.0+a'']"
             and raw' = "[''lts/iron'', ''1.0.0+b'', ''0.9.0'', ''1.0.0+a'']"]
        compare_totalPreorder aliases_distinct aliases_catalog build_catalog build_class
  by auto

text \<open>
  C7 as stated fails: two versions that differ only in build metadata are both valid and
  have equal precedence, so the stable sort leaves them in their input order and the two
  orders of the raw list give different catalogs.
\<close>

theorem constructCatalog_build_metadata_counterexample:
  "mset [''1.0.0+b'', ''1.0.0+a''] = mset [''1.0.0+a'', ''1.0.0+b'']
   \<and> constructCatalog valid compare [''1.0.0+a'', ''1.0.0+b'']
       = Returns [''1.0.0+a'', ''1.0.0+b'']
   \<and> constructCatalog valid compare [''1.0.0+b'', ''1.0.0+a'']
       = Returns [''1.0.0+b'', ''1.0.0+a'']
   \<and> constructCatalog valid compare [''1.0.0+b'', ''1.0.0+a'']
       \<noteq> constructCatalog valid compare [''1.0.0+a'', ''1.0.0+b'']"
  by (simp add: constructCatalog_def semver_defs)

section \<open>The orchestrator\<close>

text \<open>
  C8. For a project whose manifest is readable and declares no dependency and no
  development dependency, the analysis returns a record with the note
  \<^verbatim>\<open>No dependencies to analyze.\<close> and four absent bounds, and its only file-system
  calls are the two on the project manifest: no dependency metadata is looked up.
\<close>

theorem no_dependencies_result:
  "files env (manifestPath env projectPath) = Parsed pj
   \<and> (dependencies pj = None \<or> dependencies pj = Some [])
   \<and> (devDependencies pj = None \<or> devDependencies pj = Some []) \<longrightarrow>
     analyzeProjectIncludes env projectPath
       = (Returns (Some \<lparr>projectPackageJsonPath = manifestPath env projectPath,
                         minNode = None, maxNode = None, minNpm = None, maxNpm = None,
                         noteText = Some ''No dependencies to analyze.''\<rparr>),
          [ExistsSync (manifestPath env projectPath), ReadFileSync (manifestPath env projectPath)])"
proof
  assume h: "files env (manifestPath env projectPath) = Parsed pj
   \<and> (dependencies pj = None \<or> dependencies pj = Some [])
   \<and> (devDependencies pj = None \<or> devDependencies pj = Some [])"
  then have "mergedKeys (dependencies pj) (devDependencies pj) = []"
    by (auto simp: mergedKeys_def)
  with h analyze_no_dependencies [of env projectPath pj]
  show "analyzeProjectIncludes env projectPath
       = (Returns (Some \<lparr>projectPackageJsonPath = manifestPath env projectPath,
                         minNode = None, maxNode = None, minNpm = None, maxNpm = None,
                         noteText = Some ''No dependencies to analyze.''\<rparr>),
          [ExistsSync (manifestPath env projectPath), ReadFileSync (manifestPath env projectPath)])"
    by simp
qed

theorem no_dependencies_result_witness:
  "files (exampleRun noDependencies Missing) (manifestPath (exampleRun noDependencies Missing) ''/project'')
     = Parsed \<lparr>dependencies = None, devDependencies = Some [], engines = None\<rparr>
   \<and> analyzeProjectIncludes (exampleRun noDependencies Missing) ''/project''
       = (Returns (Some \<lparr>projectPackageJsonPath = ''/project/package.json'',
                         minNode = None, maxNode = None, minNpm = None, maxNpm = None,
                         noteText = Some ''No dependencies to analyze.''\<rparr>),
          [ExistsSync ''/project/package.json'', ReadFileSync ''/project/package.json''])"
  using no_dependencies_result
          [where env = "exampleRun noDependencies Missing" and projectPath = "''/project''"
             and pj = "\<lparr>dependencies = None, devDependencies = Some [], engines = None\<rparr>"]
  by (simp add: run_defs)

text \<open>
  C9. When the project manifest is missing the analysis shows the error
  \<^verbatim>\<open>package.json not found in\<close> followed by the project path, and when it cannot be read
  or parsed it shows \<^verbatim>\<open>Error parsing\<close> followed by the manifest path and the error; in
  both cases it returns \<^verbatim>\<open>null\<close>.
\<close>

theorem unreadable_manifest_returns_null:
  "(files env (manifestPath env projectPath) = Missing \<longrightarrow>
      analyzeProjectIncludes env projectPath
        = (Returns None,
           [ExistsSync (manifestPath env projectPath),
            ShowErrorMessage (''package.json not found in '' @ projectPath)]))
   \<and> (files env (manifestPath env projectPath) = Unreadable error \<longrightarrow>
      analyzeProjectIncludes env projectPath
        = (Returns None,
           [ExistsSync (manifestPath env projectPath),
            ReadFileSync (manifestPath env projectPath),
            ShowErrorMessage
              (''Error parsing '' @ manifestPath env projectPath @ '': '' @ error)]))"
  using analyze_Missing [of env projectPath] analyze_Unreadable [of env projectPath error]
  by simp

theorem unreadable_manifest_returns_null_witness:
  "files (exampleRun Missing Missing) (manifestPath (exampleRun Missing Missing) ''/project'') = Missing
   \<and> analyzeProjectIncludes (exampleRun Missing Missing) ''/project''
       = (Returns None,
          [ExistsSync ''/project/package.json'',
           ShowErrorMessage ''package.json not found in /project''])
   \<and> files (exampleRun (Unreadable ''SyntaxError: Unexpected end of JSON input'') Missing)
        (manifestPath (exampleRun (Unreadable ''SyntaxError: Unexpected end of JSON input'') Missing)
           ''/project'')
       = Unreadable ''SyntaxError: Unexpected end of JSON input''
   \<and> analyzeProjectIncludes
        (exampleRun (Unreadable ''SyntaxError: Unexpected end of JSON input'') Missing) ''/project''
       = (Returns None,
          [ExistsSync ''/project/package.json'', ReadFileSync ''/project/package.json'',
           ShowErrorMessage
             ''Error parsing /project/package.json: SyntaxError: Unexpected end of JSON input''])"
  using unreadable_manifest_returns_null
          [where env = "exampleRun Missing Missing" and projectPath = "''/project''"]
        unreadable_manifest_returns_null
          [where env = "exampleRun (Unreadable ''SyntaxError: Unexpected end of JSON input'') Missing"
             and projectPath = "''/project''"
             and error = "''SyntaxError: Unexpected end of JSON input''"]
  by (simp add: run_defs)

section \<open>The formatter\<close>

text \<open>
  C5, as amended. With both bounds absent the formatter returns nothing; with a non-empty
  minimum only it returns \<^verbatim>\<open>>=\<close> followed by the minimum; with a non-empty maximum only
  it returns \<^verbatim>\<open><=\<close> followed by the maximum; with both non-empty it returns the minimum
  clause, one space, and the maximum clause, in that order whatever the two strings are.
\<close>

theorem formatVersionRange_cases:
  "formatVersionRange None None = None
   \<and> (m \<noteq> [] \<longrightarrow> formatVersionRange (Some m) None = Some (''>='' @ m))
   \<and> (M \<noteq> [] \<longrightarrow> formatVersionRange None (Some M) = Some (''<='' @ M))
   \<and> (m \<noteq> [] \<and> M \<noteq> [] \<longrightarrow>
        formatVersionRange (Some m) (Some M) = Some (''>='' @ m @ '' '' @ ''<='' @ M))"
  by (simp add: formatVersionRange_def truthy_def template_def)

theorem formatVersionRange_cases_witness:
  "formatVersionRange None None = None
   \<and> formatVersionRange (Some ''12.0.0'') None = Some ''>=12.0.0''
   \<and> formatVersionRange None (Some ''16.0.0'') = Some ''<=16.0.0''
   \<and> formatVersionRange (Some ''12.0.0'') (Some ''16.0.0'') = Some ''>=12.0.0 <=16.0.0''"
  using formatVersionRange_cases [of "''12.0.0''" "''16.0.0''"] by simp

text \<open>
  C5 as stated fails: the empty string is a non-null minimum, and the formatter returns
  nothing for it instead of the bare operator \<^verbatim>\<open>>=\<close>.
\<close>

theorem formatVersionRange_empty_min_counterexample:
  "formatVersionRange (Some '''') None = None
   \<and> formatVersionRange (Some '''') None \<noteq> Some (''>='' @ '''')"
  by (simp add: formatVersionRange_def truthy_def)

text \<open>
  C10. An empty-string bound is formatted as an absent bound: with a non-empty \<open>M\<close>,
  an empty minimum gives \<^verbatim>\<open><=M\<close>, an empty maximum gives \<^verbatim>\<open>>=M\<close>, and two
  empty bounds give no range at all.
\<close>

theorem formatVersionRange_empty_string:
  "M \<noteq> [] \<Longrightarrow>
     formatVersionRange (Some '''') (Some M) = Some (''<='' @ M)
     \<and> formatVersionRange (Some M) (Some '''') = Some (''>='' @ M)
     \<and> formatVersionRange (Some '''') (Some '''') = None
     \<and> formatVersionRange (Some '''') (Some M) = formatVersionRange None (Some M)
     \<and> formatVersionRange (Some M) (Some '''') = formatVersionRange (Some M) None"
  by (simp add: formatVersionRange_def truthy_def template_def)

theorem formatVersionRange_empty_string_witness:
  "''16.0.0'' \<noteq> []
   \<and> formatVersionRange (Some '''') (Some ''16.0.0'') = Some ''<=16.0.0''
   \<and> formatVersionRange (Some ''16.0.0'') (Some '''') = Some ''>=16.0.0''
   \<and> formatVersionRange (Some '''') (Some '''') = None"
  using formatVersionRange_empty_string [of "''16.0.0''"] by simp

end
